theory Spec2Isabelle
  imports Main "HOL-Library.Multiset"
begin

section \<open>Values, arrays and errors\<close>

text \<open>
  The attribute matrices of \<^verbatim>\<open>geatpy/Population.py\<close> are two-dimensional numpy arrays.
  An array is modelled by its column count (\<^verbatim>\<open>shape[1]\<close>, which numpy keeps even when the
  array has no row) and the list of its rows; \<^verbatim>\<open>shape[0]\<close> is the length of that list.
  The numbers stored in an array are opaque (type \<open>'a\<close>): the container only copies and
  rearranges them. A cell can also hold Python's \<^verbatim>\<open>None\<close>, which is what numpy stores when
  \<^verbatim>\<open>None\<close> is stacked or assigned into an array (for a float array the stored value is the
  conversion of \<^verbatim>\<open>None\<close>, a NaN; it is the same cell \<open>NoneObj\<close> here).
\<close>

datatype 'a cell = Num 'a | NoneObj

datatype 'a matrix = Matrix (ncols: nat) (rows: "'a cell list list")

text \<open>
  Every \<^verbatim>\<open>raise RuntimeError(...)\<close> of the source keeps the ASCII part of its message; the
  other constructors are the exceptions that Python and numpy raise by themselves
  (subscripting \<^verbatim>\<open>None\<close>, an index out of bounds, shapes that cannot be stacked or
  broadcast, a method called on \<^verbatim>\<open>None\<close>).
\<close>

datatype error = RuntimeError string | TypeError | IndexError | ValueError | AttributeError

definition bindE :: "error + 'x \<Rightarrow> ('x \<Rightarrow> error + 'y) \<Rightarrow> error + 'y" where
  "bindE m f = (case m of Inl e \<Rightarrow> Inl e | Inr x \<Rightarrow> f x)"

definition step :: "'s \<Rightarrow> error + 'x \<Rightarrow> ('x \<Rightarrow> 's \<times> error option) \<Rightarrow> 's \<times> error option" where
  \<comment> \<open>one statement of a mutating method: when it raises, the state reached so far is
      what the caller sees\<close>
  "step s m k = (case m of Inl e \<Rightarrow> (s, Some e) | Inr x \<Rightarrow> k x)"

definition shape0 :: "'a matrix \<Rightarrow> nat" where
  "shape0 m = length (rows m)"

definition shape1 :: "'a matrix \<Rightarrow> nat" where
  "shape1 m = ncols m"

definition np_ones :: "nat \<Rightarrow> nat \<Rightarrow> ('a::one) matrix" where
  \<comment> \<open>\<^verbatim>\<open>np.ones((n, c))\<close>\<close>
  "np_ones n c = Matrix c (replicate n (replicate c (Num 1)))"

subsection \<open>Reading rows: \<^verbatim>\<open>X[index]\<close>\<close>

text \<open>
  \<^verbatim>\<open>index\<close> is a one-dimensional numpy array of integers (the docstrings require a numpy
  row vector). numpy counts a negative entry from the end and raises \<^verbatim>\<open>IndexError\<close> for
  an entry outside \<open>-n \<le> i < n\<close>.
\<close>

definition norm_index :: "nat \<Rightarrow> int \<Rightarrow> error + nat" where
  "norm_index n i =
     (if 0 \<le> i \<and> i < int n then Inr (nat i)
      else if - int n \<le> i \<and> i < 0 then Inr (nat (i + int n))
      else Inl IndexError)"

fun norm_indices :: "nat \<Rightarrow> int list \<Rightarrow> error + nat list" where
  "norm_indices n [] = Inr []"
| "norm_indices n (i # is) =
     bindE (norm_index n i) (\<lambda>j. bindE (norm_indices n is) (\<lambda>js. Inr (j # js)))"

definition np_take :: "'a matrix \<Rightarrow> int list \<Rightarrow> error + 'a matrix" where
  \<comment> \<open>\<^verbatim>\<open>X[index]\<close> and \<^verbatim>\<open>X[index, :]\<close> for an array \<^verbatim>\<open>X\<close>\<close>
  "np_take m index =
     bindE (norm_indices (shape0 m) index)
       (\<lambda>js. Inr (Matrix (ncols m) (map (\<lambda>j. rows m ! j) js)))"

definition subscript :: "'a matrix option \<Rightarrow> int list \<Rightarrow> error + 'a matrix" where
  \<comment> \<open>\<^verbatim>\<open>X[index]\<close> where \<^verbatim>\<open>X\<close> may be \<^verbatim>\<open>None\<close>, which is not subscriptable\<close>
  "subscript x index = (case x of None \<Rightarrow> Inl TypeError | Some m \<Rightarrow> np_take m index)"

definition subscript_if_present :: "'a matrix option \<Rightarrow> int list \<Rightarrow> error + 'a matrix option" where
  \<comment> \<open>\<^verbatim>\<open>X[index] if X is not None else X\<close>\<close>
  "subscript_if_present x index =
     (case x of None \<Rightarrow> Inr None | Some m \<Rightarrow> bindE (np_take m index) (\<lambda>r. Inr (Some r)))"

subsection \<open>Writing rows: \<^verbatim>\<open>X[index] = V\<close>\<close>

text \<open>
  numpy broadcasts the value to the shape \<open>(len(index), X.shape[1])\<close> of the selection: a
  value with one row is repeated for every selected row, a value with one column is
  repeated along each row, and \<^verbatim>\<open>None\<close> (a scalar) fills the whole selection. Any other
  shape raises \<^verbatim>\<open>ValueError\<close>. The rows are then written in the order of \<^verbatim>\<open>index\<close>, so
  that for a repeated index the last write stays. Nothing is written when an error is
  raised.
\<close>

definition broadcast_row :: "nat \<Rightarrow> nat \<Rightarrow> 'a cell list \<Rightarrow> 'a cell list" where
  "broadcast_row c d r = (if d = c then r else replicate c (r ! 0))"

definition broadcast_to :: "nat \<Rightarrow> nat \<Rightarrow> 'a matrix option \<Rightarrow> error + 'a cell list list" where
  "broadcast_to k c v =
     (case v of
        None \<Rightarrow> Inr (replicate k (replicate c NoneObj))
      | Some m \<Rightarrow>
          if (shape0 m = k \<or> shape0 m = 1) \<and> (shape1 m = c \<or> shape1 m = 1)
          then Inr (map (broadcast_row c (shape1 m))
                     (if shape0 m = k then rows m else replicate k (rows m ! 0)))
          else Inl ValueError)"

fun scatter :: "'r list \<Rightarrow> (nat \<times> 'r) list \<Rightarrow> 'r list" where
  "scatter xs [] = xs"
| "scatter xs ((j, r) # ws) = scatter (xs[j := r]) ws"

definition np_put :: "'a matrix \<Rightarrow> int list \<Rightarrow> 'a matrix option \<Rightarrow> error + 'a matrix" where
  \<comment> \<open>\<^verbatim>\<open>X[index] = V\<close> for an array \<^verbatim>\<open>X\<close>; the result is the new content of \<^verbatim>\<open>X\<close>\<close>
  "np_put m index v =
     bindE (broadcast_to (length index) (ncols m) v)
       (\<lambda>vs. bindE (norm_indices (shape0 m) index)
         (\<lambda>js. Inr (Matrix (ncols m) (scatter (rows m) (zip js vs)))))"

definition assign_rows :: "'a matrix option \<Rightarrow> int list \<Rightarrow> 'a matrix option \<Rightarrow> error + 'a matrix" where
  \<comment> \<open>\<^verbatim>\<open>X[index] = V\<close> where \<^verbatim>\<open>X\<close> may be \<^verbatim>\<open>None\<close>, which supports no item assignment\<close>
  "assign_rows x index v = (case x of None \<Rightarrow> Inl TypeError | Some m \<Rightarrow> np_put m index v)"

subsection \<open>Stacking: \<^verbatim>\<open>np.vstack([A, B])\<close>\<close>

text \<open>
  \<^verbatim>\<open>np.vstack\<close> passes each operand through \<^verbatim>\<open>np.atleast_2d\<close>, which turns \<^verbatim>\<open>None\<close> into
  the 1 x 1 array holding \<^verbatim>\<open>None\<close>, and concatenates along the rows; operands with
  different column counts raise \<^verbatim>\<open>ValueError\<close>.
\<close>

definition atleast_2d :: "'a matrix option \<Rightarrow> 'a matrix" where
  "atleast_2d x = (case x of None \<Rightarrow> Matrix 1 [[NoneObj]] | Some m \<Rightarrow> m)"

definition np_vstack :: "'a matrix option \<Rightarrow> 'a matrix option \<Rightarrow> error + 'a matrix" where
  "np_vstack a b =
     (let a2 = atleast_2d a; b2 = atleast_2d b
      in if shape1 a2 = shape1 b2 then Inr (Matrix (shape1 a2) (rows a2 @ rows b2))
         else Inl ValueError)"

section \<open>The class \<^verbatim>\<open>Population\<close>\<close>

text \<open>
  \<^verbatim>\<open>Encoding\<close> is a string or \<^verbatim>\<open>None\<close>. \<^verbatim>\<open>Field\<close> is an opaque descriptor (type \<open>'f\<close>) or
  \<^verbatim>\<open>None\<close>; the test \<^verbatim>\<open>np.all(self.Field == pop.Field)\<close> is equality of the descriptors.
  \<^verbatim>\<open>FitnV\<close> is always an array: the constructor replaces a missing one by a column of ones
  and no method sets it to \<^verbatim>\<open>None\<close>. \<^verbatim>\<open>sizes\<close> is a Python integer.
\<close>

record ('f, 'a) Population =
  sizes :: int
  Encoding :: "string option"
  Field' :: "'f option"
  Chrom :: "'a matrix option"
  Lind :: nat
  ObjV :: "'a matrix option"
  FitnV :: "'a matrix"
  CV :: "'a matrix option"
  Phen :: "'a matrix option"

definition init ::
  "string option \<Rightarrow> 'f option \<Rightarrow> int \<Rightarrow> 'a matrix option \<Rightarrow> 'a matrix option \<Rightarrow>
   'a matrix option \<Rightarrow> 'a matrix option \<Rightarrow> 'a matrix option \<Rightarrow> error + ('f, 'a::one) Population" where
  \<comment> \<open>\<^verbatim>\<open>Population.__init__\<close>; \<^verbatim>\<open>NIND\<close> is an \<^verbatim>\<open>int\<close>, so only its sign is tested.
      \<^verbatim>\<open>Field.copy()\<close> fails on \<^verbatim>\<open>None\<close>; \<^verbatim>\<open>Lind\<close> is read from the argument \<^verbatim>\<open>Chrom\<close>.\<close>
  "init enc fld nind chrom objv fitnv cv phen =
     (if \<not> 0 \<le> nind then Inl (RuntimeError ''error in Population: Size error.'')
      else if enc \<noteq> None \<and> fld = None then Inl AttributeError
      else Inr \<lparr> sizes = nind,
                 Encoding = enc,
                 Field' = (if enc = None then None else fld),
                 Chrom = (if enc = None then None else chrom),
                 Lind = (case chrom of None \<Rightarrow> 0 | Some c \<Rightarrow> shape1 c),
                 ObjV = objv,
                 FitnV = (case fitnv of None \<Rightarrow> np_ones (nat nind) 1 | Some f \<Rightarrow> f),
                 CV = cv,
                 Phen = phen \<rparr>)"

definition decoding ::
  "('a matrix option \<Rightarrow> 'f option \<Rightarrow> error + 'a matrix) \<Rightarrow> ('f, 'a) Population \<Rightarrow> error + 'a matrix" where
  \<comment> \<open>\<^verbatim>\<open>Population.decoding\<close>; \<open>bs2ri\<close> is the codec \<^verbatim>\<open>ea.bs2ri\<close>, which is not part of
      this file. \<^verbatim>\<open>self.Chrom.copy()\<close> fails when \<^verbatim>\<open>Chrom\<close> is \<^verbatim>\<open>None\<close>.\<close>
  "decoding bs2ri self =
     (if Encoding self = Some ''BG'' then bs2ri (Chrom self) (Field' self)
      else if Encoding self = Some ''RI'' \<or> Encoding self = Some ''P''
      then (case Chrom self of None \<Rightarrow> Inl AttributeError | Some c \<Rightarrow> Inr c)
      else Inl (RuntimeError ''error in Population.decoding: Encoding must be BG or RI or P.''))"

text \<open>
  A method that mutates \<^verbatim>\<open>self\<close> returns the state it leaves behind together with the
  exception it raised, if any: an exception raised half way leaves the earlier
  assignments in place.
\<close>

definition initChrom ::
  "(string option \<Rightarrow> int \<Rightarrow> 'f option \<Rightarrow> error + 'a matrix) \<Rightarrow>
   ('a matrix option \<Rightarrow> 'f option \<Rightarrow> error + 'a matrix) \<Rightarrow>
   ('f, 'a::one) Population \<Rightarrow> int option \<Rightarrow> ('f, 'a) Population \<times> error option" where
  \<comment> \<open>\<^verbatim>\<open>Population.initChrom\<close>; \<open>crtpc\<close> is the chromosome generator \<^verbatim>\<open>ea.crtpc\<close>.
      \<^verbatim>\<open>np.ones\<close> raises \<^verbatim>\<open>ValueError\<close> for a negative dimension.\<close>
  "initChrom crtpc bs2ri self nind =
     (let s1 = (case nind of None \<Rightarrow> self | Some n \<Rightarrow> self\<lparr>sizes := n\<rparr>)
      in step s1 (crtpc (Encoding s1) (sizes s1) (Field' s1))
           (\<lambda>c. let s2 = s1\<lparr>Chrom := Some c, Lind := shape1 c, ObjV := None\<rparr>
                in step s2 (if sizes s2 < 0 then Inl ValueError
                            else Inr (np_ones (nat (sizes s2)) 1))
                     (\<lambda>f. let s3 = s2\<lparr>FitnV := f, CV := None\<rparr>
                          in step s3 (decoding bs2ri s3)
                               (\<lambda>p. (s3\<lparr>Phen := Some p\<rparr>, None)))))"

definition copy :: "('f, 'a::one) Population \<Rightarrow> error + ('f, 'a) Population" where
  "copy self =
     init (Encoding self) (Field' self) (sizes self) (Chrom self) (ObjV self)
       (Some (FitnV self)) (CV self) (Phen self)"

definition Chrom_is_None :: error where
  "Chrom_is_None = RuntimeError ''error in Population: Chrom is None.''"

definition Encoding_disagree :: error where
  "Encoding_disagree = RuntimeError ''error in Population: Encoding disagree.''"

definition Field_disagree :: error where
  "Field_disagree = RuntimeError ''error in Population: Field disagree.''"

definition Sizes_disagree :: error where
  "Sizes_disagree = RuntimeError ''error in Population: Sizes disagree.''"

definition CV_disagree :: error where
  "CV_disagree = RuntimeError ''error in Population: CV disagree.''"

definition getitem :: "('f, 'a::one) Population \<Rightarrow> int list \<Rightarrow> error + ('f, 'a) Population" where
  \<comment> \<open>\<^verbatim>\<open>Population.__getitem__\<close>; the arguments of the constructor call are evaluated
      from left to right\<close>
  "getitem self index =
     bindE (if Encoding self = None then Inr None
            else case Chrom self of
                   None \<Rightarrow> Inl Chrom_is_None
                 | Some c \<Rightarrow> bindE (np_take c index) (\<lambda>r. Inr (Some r)))
       (\<lambda>NewChrom. bindE (np_take (FitnV self) index)
         (\<lambda>NewFitnV. bindE (subscript_if_present (ObjV self) index)
           (\<lambda>NewObjV. bindE (subscript_if_present (CV self) index)
             (\<lambda>NewCV. bindE (subscript (Phen self) index)
               (\<lambda>NewPhen.
                  init (Encoding self) (Field' self) (int (shape0 NewFitnV)) NewChrom
                    NewObjV (Some NewFitnV) NewCV (Some NewPhen))))))"

definition shuffle :: "('f, 'a) Population \<Rightarrow> int list \<Rightarrow> ('f, 'a) Population \<times> error option" where
  \<comment> \<open>\<^verbatim>\<open>Population.shuffle\<close>; \<open>shuff\<close> is the value of
      \<^verbatim>\<open>np.argsort(np.random.rand(self.sizes))\<close>, a permutation of \<open>0, ..., sizes - 1\<close>
      (\<^verbatim>\<open>rand\<close> raises \<^verbatim>\<open>ValueError\<close> for a negative dimension)\<close>
  "shuffle self shuff =
     step self (if sizes self < 0 then Inl ValueError
                else if Encoding self = None then Inr None
                else case Chrom self of
                       None \<Rightarrow> Inl Chrom_is_None
                     | Some c \<Rightarrow> bindE (np_take c shuff) (\<lambda>r. Inr (Some r)))
       (\<lambda>c. let s1 = self\<lparr>Chrom := c\<rparr>
            in step s1 (subscript_if_present (ObjV s1) shuff)
                 (\<lambda>v. let s2 = s1\<lparr>ObjV := v\<rparr>
                      in step s2 (np_take (FitnV s2) shuff)
                           (\<lambda>f. let s3 = s2\<lparr>FitnV := f\<rparr>
                                in step s3 (subscript_if_present (CV s3) shuff)
                                     (\<lambda>w. let s4 = s3\<lparr>CV := w\<rparr>
                                          in step s4 (subscript (Phen s4) shuff)
                                               (\<lambda>p. (s4\<lparr>Phen := Some p\<rparr>, None))))))"

definition setitem_checks :: "('f, 'a) Population \<Rightarrow> int list \<Rightarrow> ('f, 'a) Population \<Rightarrow> error option" where
  \<comment> \<open>the five tests at the head of \<^verbatim>\<open>Population.__setitem__\<close>, made only when
      \<^verbatim>\<open>self.Encoding is not None\<close>\<close>
  "setitem_checks self index pop =
     (if Encoding self \<noteq> None then
        if Encoding self \<noteq> Encoding pop then Some Encoding_disagree
        else if Field' self \<noteq> Field' pop then Some Field_disagree
        else if int (length index) \<noteq> sizes pop then Some Sizes_disagree
        else if Chrom self = None then Some Chrom_is_None
        else if (CV self = None) \<noteq> (CV pop = None) then Some CV_disagree
        else None
      else None)"

definition setitem ::
  "('f, 'a) Population \<Rightarrow> int list \<Rightarrow> ('f, 'a) Population \<Rightarrow> ('f, 'a) Population \<times> error option" where
  \<comment> \<open>\<^verbatim>\<open>Population.__setitem__\<close>: \<^verbatim>\<open>self[index] = pop\<close>\<close>
  "setitem self index pop =
     step self (case setitem_checks self index pop of
                  Some e \<Rightarrow> Inl e
                | None \<Rightarrow>
                    if Encoding self \<noteq> None
                    then bindE (assign_rows (Chrom self) index (Chrom pop)) (\<lambda>r. Inr (Some r))
                    else Inr (Chrom self))
       (\<lambda>c. let s1 = self\<lparr>Chrom := c\<rparr>
            in step s1 (assign_rows (ObjV s1) index (ObjV pop))
                 (\<lambda>v. let s2 = s1\<lparr>ObjV := Some v\<rparr>
                      in step s2 (np_put (FitnV s2) index (Some (FitnV pop)))
                           (\<lambda>f. let s3 = s2\<lparr>FitnV := f\<rparr>
                                in step s3 (if CV s3 \<noteq> None
                                            then bindE (assign_rows (CV s3) index (CV pop))
                                                   (\<lambda>r. Inr (Some r))
                                            else Inr (CV s3))
                                     (\<lambda>w. let s4 = s3\<lparr>CV := w\<rparr>
                                          in step s4 (assign_rows (Phen s4) index (Phen pop))
                                               (\<lambda>p. (s4\<lparr>Phen := Some p,
                                                          sizes := int (shape0 p)\<rparr>, None))))))"

definition add :: "('f, 'a::one) Population \<Rightarrow> ('f, 'a) Population \<Rightarrow> error + ('f, 'a) Population" where
  \<comment> \<open>\<^verbatim>\<open>Population.__add__\<close>: \<^verbatim>\<open>self + pop\<close>\<close>
  "add self pop =
     bindE (if Encoding self = None then Inr None
            else if Encoding self \<noteq> Encoding pop then Inl Encoding_disagree
            else if Field' self \<noteq> Field' pop then Inl Field_disagree
            else if Chrom self = None \<or> Chrom pop = None then Inl Chrom_is_None
            else if (CV self = None) \<noteq> (CV pop = None) then Inl CV_disagree
            else bindE (np_vstack (Chrom self) (Chrom pop)) (\<lambda>r. Inr (Some r)))
       (\<lambda>NewChrom. bindE (np_vstack (ObjV self) (ObjV pop))
         (\<lambda>NewObjV. bindE (np_vstack (Some (FitnV self)) (Some (FitnV pop)))
           (\<lambda>NewFitnV. bindE (if CV self \<noteq> None
                               then bindE (np_vstack (CV self) (CV pop)) (\<lambda>r. Inr (Some r))
                               else Inr (CV self))
             (\<lambda>NewCV. bindE (np_vstack (Phen self) (Phen pop))
               (\<lambda>NewPhen.
                  init (Encoding self) (Field' self) (sizes self + sizes pop) NewChrom
                    (Some NewObjV) (Some NewFitnV) NewCV (Some NewPhen))))))"

definition len :: "('f, 'a) Population \<Rightarrow> int" where
  "len self = sizes self"

section \<open>The vocabulary of the specification\<close>

text \<open>
  Row alignment (invariant 1 of the specification): every present attribute matrix has
  \<^verbatim>\<open>sizes\<close> rows.
\<close>

definition has_rows :: "int \<Rightarrow> 'a matrix option \<Rightarrow> bool" where
  "has_rows n x = (case x of None \<Rightarrow> True | Some m \<Rightarrow> int (shape0 m) = n)"

definition row_aligned :: "('f, 'a) Population \<Rightarrow> bool" where
  "row_aligned p =
     (has_rows (sizes p) (Chrom p) \<and> has_rows (sizes p) (ObjV p) \<and>
      int (shape0 (FitnV p)) = sizes p \<and> has_rows (sizes p) (CV p) \<and>
      has_rows (sizes p) (Phen p))"

text \<open>
  An initialized population: the genotype and the decode field are present exactly when
  there is an encoding scheme (invariant 2), and the phenotype has been decoded.
\<close>

definition initialized :: "('f, 'a) Population \<Rightarrow> bool" where
  "initialized p =
     ((if Encoding p = None then Chrom p = None \<and> Field' p = None
       else Chrom p \<noteq> None \<and> Field' p \<noteq> None) \<and>
      Phen p \<noteq> None)"

text \<open>Gathering the rows of a matrix by a sequence of 0-based row indices.\<close>

definition gather :: "'a matrix \<Rightarrow> int list \<Rightarrow> 'a matrix" where
  "gather m index = Matrix (ncols m) (map (\<lambda>i. rows m ! nat i) index)"

text \<open>
  Row \<open>r\<close> of an array with \<open>n\<close> rows is addressed by \<open>index\<close> when some entry of
  \<open>index\<close> selects it; for entries \<open>0 \<le> i < n\<close> that is \<open>int r \<in> set index\<close>.
\<close>

definition addressed :: "nat \<Rightarrow> int list \<Rightarrow> nat \<Rightarrow> bool" where
  "addressed n index r = (Inr r \<in> set (map (norm_index n) index))"

text \<open>The number of rows of an attribute, and its row \<open>r\<close> when it has one.\<close>

definition nrows :: "'a matrix option \<Rightarrow> nat" where
  "nrows x = (case x of None \<Rightarrow> 0 | Some m \<Rightarrow> shape0 m)"

definition row_at :: "'a matrix option \<Rightarrow> nat \<Rightarrow> 'a cell list option" where
  "row_at x r = (case x of None \<Rightarrow> None
                 | Some m \<Rightarrow> if r < shape0 m then Some (rows m ! r) else None)"

text \<open>
  An attribute is unchanged outside \<open>index\<close> when it keeps its presence and its number of
  rows, and every row that \<open>index\<close> does not address is the row it was.
\<close>

definition unchanged_outside :: "int list \<Rightarrow> 'a matrix option \<Rightarrow> 'a matrix option \<Rightarrow> bool" where
  "unchanged_outside index x x' =
     ((x' = None \<longleftrightarrow> x = None) \<and> nrows x' = nrows x \<and>
      (\<forall>r. \<not> addressed (nrows x) index r \<longrightarrow> row_at x' r = row_at x r))"

text \<open>
  The source \<open>v\<close> fits the selection of \<open>x\<close> by \<open>index\<close> when it has one row for each entry
  of \<open>index\<close> and the columns of \<open>x\<close>. An attribute \<open>x'\<close> is assigned from \<open>v\<close> when each
  selected row holds the corresponding row of \<open>v\<close> (for an index that occurs more than
  once, the row of its last occurrence).
\<close>

definition fits :: "int list \<Rightarrow> 'a matrix option \<Rightarrow> 'a matrix option \<Rightarrow> bool" where
  "fits index v x =
     (case v of None \<Rightarrow> False
      | Some vm \<Rightarrow> (case x of None \<Rightarrow> False
                   | Some m \<Rightarrow> shape0 vm = length index \<and> shape1 vm = shape1 m))"

definition assigned_from :: "int list \<Rightarrow> 'a matrix option \<Rightarrow> 'a matrix option \<Rightarrow> bool" where
  "assigned_from index v x' =
     (\<forall>k<length index. (\<forall>l<length index. k < l \<longrightarrow> index ! l \<noteq> index ! k) \<longrightarrow>
        row_at x' (nat (index ! k)) = row_at v k)"

text \<open>
  \<open>shuff\<close> is a permutation of the row numbers \<open>0, ..., n - 1\<close>. An attribute \<open>x'\<close> is \<open>x\<close>
  permuted by \<open>shuff\<close> when it keeps its presence, its number of rows and the multiset of
  its rows, and its row \<open>k\<close> is row \<open>shuff[k]\<close> of \<open>x\<close>.
\<close>

definition is_permutation :: "nat \<Rightarrow> int list \<Rightarrow> bool" where
  "is_permutation n shuff = (mset shuff = mset (map int [0..<n]))"

definition rows_mset :: "'a matrix option \<Rightarrow> 'a cell list multiset" where
  "rows_mset x = (case x of None \<Rightarrow> {#} | Some m \<Rightarrow> mset (rows m))"

definition permuted_by :: "int list \<Rightarrow> 'a matrix option \<Rightarrow> 'a matrix option \<Rightarrow> bool" where
  "permuted_by shuff x x' =
     ((x' = None \<longleftrightarrow> x = None) \<and> nrows x' = nrows x \<and> rows_mset x' = rows_mset x \<and>
      (\<forall>k<length shuff. row_at x' k = row_at x (nat (shuff ! k))))"

text \<open>
  The preconditions of a merge as the specification lists them: the same encoding
  scheme, equal decode fields, both genotypes present under an encoding scheme, and the
  constraint violations present in both populations or in neither.
\<close>

definition merge_preconditions :: "('f, 'a) Population \<Rightarrow> ('f, 'a) Population \<Rightarrow> bool" where
  "merge_preconditions a b =
     (Encoding a = Encoding b \<and> Field' a = Field' b \<and>
      (if Encoding a = None then True else Chrom a \<noteq> None \<and> Chrom b \<noteq> None) \<and>
      ((CV a = None) = (CV b = None)))"

text \<open>
  Two attributes have the same width when both are present with the same number of
  columns, or one is absent. The attribute \<open>z\<close> is \<open>x\<close> stacked on \<open>y\<close>, split at row
  \<open>n\<close>, when its rows are the rows of \<open>x\<close> followed by the rows of \<open>y\<close>, the first \<open>n\<close> of
  them being those of \<open>x\<close>; it is absent when both are.
\<close>

definition same_width :: "'a matrix option \<Rightarrow> 'a matrix option \<Rightarrow> bool" where
  "same_width x y =
     (case x of None \<Rightarrow> True
      | Some m \<Rightarrow> (case y of None \<Rightarrow> True | Some k \<Rightarrow> shape1 m = shape1 k))"

definition same_widths :: "('f, 'a) Population \<Rightarrow> ('f, 'a) Population \<Rightarrow> bool" where
  "same_widths a b =
     (same_width (Chrom a) (Chrom b) \<and> same_width (ObjV a) (ObjV b) \<and>
      shape1 (FitnV a) = shape1 (FitnV b) \<and> same_width (CV a) (CV b) \<and>
      same_width (Phen a) (Phen b))"

definition stacked :: "nat \<Rightarrow> 'a matrix option \<Rightarrow> 'a matrix option \<Rightarrow> 'a matrix option \<Rightarrow> bool" where
  "stacked n x y z =
     (case x of
        None \<Rightarrow> y = None \<and> z = None
      | Some m \<Rightarrow>
          (case y of
             None \<Rightarrow> False
           | Some k \<Rightarrow>
               (case z of
                  None \<Rightarrow> False
                | Some r \<Rightarrow> shape1 r = shape1 m \<and> rows r = rows m @ rows k \<and>
                            take n (rows r) = rows m \<and> drop n (rows r) = rows k)))"

text \<open>
  The contracts of the two collaborators (sections 4.2 and 4.3 of the specification), as
  far as rows are concerned: the chromosome generator returns one row for each requested
  individual, and the codec one phenotype row for each genotype row.
\<close>

definition generator_contract ::
  "(string option \<Rightarrow> int \<Rightarrow> 'f option \<Rightarrow> error + 'a matrix) \<Rightarrow> bool" where
  "generator_contract crtpc = (\<forall>e n f c. 0 \<le> n \<and> crtpc e n f = Inr c \<longrightarrow> int (shape0 c) = n)"

definition codec_contract :: "('a matrix option \<Rightarrow> 'f option \<Rightarrow> error + 'a matrix) \<Rightarrow> bool" where
  "codec_contract bs2ri = (\<forall>c f r. bs2ri (Some c) f = Inr r \<longrightarrow> shape0 r = shape0 c)"

section \<open>Example populations\<close>

text \<open>
  The populations at which the theorems below are instantiated. The decode field is an
  opaque descriptor; a natural number stands for it.
\<close>

definition genes3 :: "int matrix" where
  "genes3 = Matrix 2 [[Num 1, Num 2], [Num 3, Num 4], [Num 5, Num 6]]"

definition pop3 :: "(nat, int) Population" where
  \<comment> \<open>three individuals in real/integer encoding, decoded, not yet evaluated\<close>
  "pop3 = \<lparr> sizes = 3, Encoding = Some ''RI'', Field' = Some 0, Chrom = Some genes3, Lind = 2,
            ObjV = None, FitnV = Matrix 1 [[Num 1], [Num 1], [Num 1]], CV = None,
            Phen = Some genes3 \<rparr>"

definition undecoded3 :: "(nat, int) Population" where
  \<comment> \<open>the value of \<^verbatim>\<open>Population('RI', Field, 3, Chrom)\<close>: the phenotype is absent\<close>
  "undecoded3 = \<lparr> sizes = 3, Encoding = Some ''RI'', Field' = Some 0, Chrom = Some genes3,
                  Lind = 2, ObjV = None, FitnV = Matrix 1 [[Num 1], [Num 1], [Num 1]],
                  CV = None, Phen = None \<rparr>"

definition stats3 :: "(nat, int) Population" where
  \<comment> \<open>three individuals without an encoding scheme (\<^verbatim>\<open>Encoding = None\<close>), evaluated\<close>
  "stats3 = \<lparr> sizes = 3, Encoding = None, Field' = None, Chrom = None, Lind = 0,
              ObjV = Some (Matrix 1 [[Num 10], [Num 20], [Num 30]]),
              FitnV = Matrix 1 [[Num 1], [Num 1], [Num 1]], CV = None,
              Phen = Some genes3 \<rparr>"

definition single1 :: "(nat, int) Population" where
  \<comment> \<open>one individual without an encoding scheme, with a constraint violation matrix\<close>
  "single1 = \<lparr> sizes = 1, Encoding = None, Field' = None, Chrom = None, Lind = 0,
               ObjV = Some (Matrix 1 [[Num 70]]), FitnV = Matrix 1 [[Num 5]],
               CV = Some (Matrix 1 [[Num 0]]), Phen = Some (Matrix 2 [[Num 8, Num 9]]) \<rparr>"

definition pair2 :: "(nat, int) Population" where
  \<comment> \<open>two individuals in real/integer encoding, evaluated\<close>
  "pair2 = \<lparr> sizes = 2, Encoding = Some ''RI'', Field' = Some 0,
             Chrom = Some (Matrix 2 [[Num 7, Num 8], [Num 9, Num 0]]), Lind = 2,
             ObjV = Some (Matrix 1 [[Num 70], [Num 90]]),
             FitnV = Matrix 1 [[Num 4], [Num 5]], CV = None,
             Phen = Some (Matrix 2 [[Num 7, Num 8], [Num 9, Num 0]]) \<rparr>"

definition eval3 :: "(nat, int) Population" where
  \<comment> \<open>\<open>pop3\<close> after evaluation of one objective\<close>
  "eval3 = pop3\<lparr>ObjV := Some (Matrix 1 [[Num 10], [Num 20], [Num 30]])\<rparr>"

definition wide3 :: "(nat, int) Population" where
  \<comment> \<open>\<open>pop3\<close> after evaluation of two objectives\<close>
  "wide3 = pop3\<lparr>ObjV := Some (Matrix 2 [[Num 10, Num 11], [Num 20, Num 21], [Num 30, Num 31]])\<rparr>"

definition misaligned3 :: "(nat, int) Population" where
  \<comment> \<open>the value of \<^verbatim>\<open>Population('RI', Field, 3, Chrom)\<close> for a \<^verbatim>\<open>Chrom\<close> of two rows\<close>
  "misaligned3 = \<lparr> sizes = 3, Encoding = Some ''RI'', Field' = Some 0,
                   Chrom = Some (Matrix 2 [[Num 1, Num 2], [Num 3, Num 4]]), Lind = 2,
                   ObjV = None, FitnV = Matrix 1 [[Num 1], [Num 1], [Num 1]], CV = None,
                   Phen = None \<rparr>"

definition zeros_generator :: "string option \<Rightarrow> int \<Rightarrow> nat option \<Rightarrow> error + int matrix" where
  \<comment> \<open>a chromosome generator: \<open>n\<close> rows of two zeros\<close>
  "zeros_generator e n f = Inr (Matrix 2 (replicate (nat n) [Num 0, Num 0]))"

definition no_codec :: "int matrix option \<Rightarrow> nat option \<Rightarrow> error + int matrix" where
  \<comment> \<open>a codec that decodes nothing\<close>
  "no_codec c f = Inl ValueError"

section \<open>Auxiliary facts\<close>

subsection \<open>Sequencing\<close>

lemma bindE_simps [simp]:
  "bindE (Inl e) f = Inl e" "bindE (Inr x) f = f x"
  by (simp_all add: bindE_def)

lemma bindE_eq_Inr: "(bindE m f = Inr y) = (\<exists>x. m = Inr x \<and> f x = Inr y)"
  by (cases m) simp_all

lemma step_simps [simp]:
  "step s (Inl e) k = (s, Some e)" "step s (Inr x) k = k x"
  by (simp_all add: step_def)

lemma step_eq_ok: "(step s m k = (s', None)) = (\<exists>x. m = Inr x \<and> k x = (s', None))"
  by (cases m) simp_all

subsection \<open>Reading rows\<close>

lemma norm_index_valid: "0 \<le> i \<Longrightarrow> i < int n \<Longrightarrow> norm_index n i = Inr (nat i)"
  by (simp add: norm_index_def)

lemma norm_indices_valid:
  "\<forall>i\<in>set index. 0 \<le> i \<and> i < int n \<Longrightarrow> norm_indices n index = Inr (map nat index)"
  by (induction index) (simp_all add: norm_index_valid)

lemma norm_indices_length: "norm_indices n index = Inr js \<Longrightarrow> length js = length index"
  by (induction index arbitrary: js) (auto simp: bindE_eq_Inr)

lemma norm_indices_nth:
  "norm_indices n index = Inr js \<Longrightarrow> k < length index \<Longrightarrow> norm_index n (index ! k) = Inr (js ! k)"
proof (induction index arbitrary: js k)
  case Nil
  then show ?case by simp
next
  case (Cons i index)
  then show ?case by (cases k) (auto simp: bindE_eq_Inr)
qed

lemma np_take_shape:
  "np_take m index = Inr r \<Longrightarrow> shape0 r = length index \<and> shape1 r = shape1 m"
  by (auto simp: np_take_def bindE_eq_Inr shape0_def shape1_def dest: norm_indices_length)

lemma np_take_valid:
  "\<forall>i\<in>set index. 0 \<le> i \<and> i < int (shape0 m) \<Longrightarrow>
   np_take m index = Inr (Matrix (ncols m) (map (\<lambda>i. rows m ! nat i) index))"
  by (simp add: np_take_def norm_indices_valid comp_def)


subsection \<open>The indexed view\<close>

lemma subscript_if_present_valid:
  "has_rows n x \<Longrightarrow> \<forall>i\<in>set index. 0 \<le> i \<and> i < n \<Longrightarrow>
   subscript_if_present x index = Inr (map_option (\<lambda>m. gather m index) x)"
  by (cases x) (simp_all add: subscript_if_present_def has_rows_def np_take_valid gather_def)

lemma getitem_valid:
  assumes al: "row_aligned p" and ini: "initialized p"
    and idx: "\<forall>i\<in>set index. 0 \<le> i \<and> i < sizes p"
  shows "getitem p index =
         Inr \<lparr> sizes = int (length index), Encoding = Encoding p, Field' = Field' p,
               Chrom = map_option (\<lambda>m. gather m index) (Chrom p),
               Lind = (case Chrom p of None \<Rightarrow> 0 | Some c \<Rightarrow> shape1 c),
               ObjV = map_option (\<lambda>m. gather m index) (ObjV p),
               FitnV = gather (FitnV p) index,
               CV = map_option (\<lambda>m. gather m index) (CV p),
               Phen = map_option (\<lambda>m. gather m index) (Phen p) \<rparr>"
proof -
  from ini obtain ph where ph: "Phen p = Some ph"
    by (auto simp: initialized_def)
  from al have f: "np_take (FitnV p) index = Inr (gather (FitnV p) index)"
    using idx by (simp add: row_aligned_def np_take_valid gather_def)
  from al have o: "subscript_if_present (ObjV p) index = Inr (map_option (\<lambda>m. gather m index) (ObjV p))"
    using idx by (intro subscript_if_present_valid [where n = "sizes p"]) (simp_all add: row_aligned_def)
  from al have c: "subscript_if_present (CV p) index = Inr (map_option (\<lambda>m. gather m index) (CV p))"
    using idx by (intro subscript_if_present_valid [where n = "sizes p"]) (simp_all add: row_aligned_def)
  from al ph have h: "subscript (Phen p) index = Inr (gather ph index)"
    using idx by (simp add: row_aligned_def has_rows_def subscript_def np_take_valid gather_def)
  have l: "shape0 (gather (FitnV p) index) = length index"
    by (simp add: gather_def shape0_def)
  show ?thesis
  proof (cases "Encoding p")
    case None
    with ini have "Chrom p = None" and "Field' p = None" by (simp_all add: initialized_def)
    with None f o c h l ph show ?thesis
      by (simp add: getitem_def init_def)
  next
    case (Some e)
    with ini obtain g fd where g: "Chrom p = Some g" and fd: "Field' p = Some fd"
      by (auto simp: initialized_def)
    from al g have "np_take g index = Inr (gather g index)"
      using idx by (simp add: row_aligned_def has_rows_def np_take_valid gather_def)
    with Some g fd f o c h l ph show ?thesis
      by (simp add: getitem_def init_def gather_def shape1_def)
  qed
qed

subsection \<open>Writing rows and indexed assignment\<close>

lemma length_scatter [simp]: "length (scatter xs ws) = length xs"
  by (induction xs ws rule: scatter.induct) simp_all

lemma scatter_frame: "r \<notin> fst ` set ws \<Longrightarrow> scatter xs ws ! r = xs ! r"
  by (induction xs ws rule: scatter.induct) auto

lemma scatter_last:
  "length js = length vs \<Longrightarrow> k < length js \<Longrightarrow> js ! k < length xs \<Longrightarrow>
   \<forall>l<length js. k < l \<longrightarrow> js ! l \<noteq> js ! k \<Longrightarrow>
   scatter xs (zip js vs) ! (js ! k) = vs ! k"
proof (induction js arbitrary: vs k xs)
  case Nil
  then show ?case by simp
next
  case (Cons j js)
  then obtain v vs' where vs: "vs = v # vs'" by (cases vs) auto
  show ?case
  proof (cases k)
    case 0
    from Cons.prems(4) have "j \<notin> set js"
      unfolding 0 by (auto simp: in_set_conv_nth)
    then have "j \<notin> fst ` set (zip js vs')"
      by (auto dest: set_zip_leftD)
    with Cons.prems 0 vs show ?thesis
      by (simp add: scatter_frame)
  next
    case (Suc k')
    from Cons.prems(4) have "\<forall>l<length js. k' < l \<longrightarrow> js ! l \<noteq> js ! k'"
      unfolding Suc by auto
    with Cons.prems Suc vs Cons.IH [of vs' k' "xs[j := v]"] show ?thesis
      by simp
  qed
qed

lemma norm_indices_set:
  "norm_indices n index = Inr js \<Longrightarrow> j \<in> set js \<longleftrightarrow> addressed n index j"
  by (induction index arbitrary: js) (auto simp: bindE_eq_Inr addressed_def)

lemma np_put_frame:
  assumes "np_put m index v = Inr m'"
  shows "shape0 m' = shape0 m \<and> shape1 m' = shape1 m \<and>
         (\<forall>r. \<not> addressed (shape0 m) index r \<longrightarrow> rows m' ! r = rows m ! r)"
proof -
  from assms obtain vs js where js: "norm_indices (shape0 m) index = Inr js"
    and m': "m' = Matrix (ncols m) (scatter (rows m) (zip js vs))"
    by (auto simp: np_put_def bindE_eq_Inr)
  have "rows m' ! r = rows m ! r" if "\<not> addressed (shape0 m) index r" for r
  proof -
    from that js have "r \<notin> set js" by (simp add: norm_indices_set)
    then have "r \<notin> fst ` set (zip js vs)" by (auto dest: set_zip_leftD)
    then show ?thesis by (simp add: m' scatter_frame)
  qed
  then show ?thesis by (simp add: m' shape0_def shape1_def)
qed

lemma addressed_nonneg:
  "\<forall>i\<in>set index. 0 \<le> i \<Longrightarrow> addressed n index r \<Longrightarrow> int r \<in> set index"
  by (auto simp: addressed_def norm_index_def split: if_splits)

lemma map_broadcast_row_same [simp]: "map (broadcast_row c c) xs = xs"
  by (induction xs) (simp_all add: broadcast_row_def)

lemma np_put_written:
  assumes put: "np_put m index (Some v) = Inr m'"
    and shape: "shape0 v = length index" "shape1 v = shape1 m"
    and k: "k < length index" and nonneg: "\<forall>i\<in>set index. 0 \<le> i"
    and last: "\<forall>l<length index. k < l \<longrightarrow> index ! l \<noteq> index ! k"
  shows "nat (index ! k) < shape0 m' \<and> rows m' ! nat (index ! k) = rows v ! k"
proof -
  from put shape obtain js where js: "norm_indices (shape0 m) index = Inr js"
    and m': "m' = Matrix (ncols m) (scatter (rows m) (zip js (rows v)))"
    by (auto simp: np_put_def bindE_eq_Inr broadcast_to_def shape1_def split: if_splits)
  have len: "length js = length index"
    using js by (rule norm_indices_length)
  have nth: "js ! l = nat (index ! l) \<and> js ! l < shape0 m" if "l < length index" for l
  proof -
    from js that have e: "norm_index (shape0 m) (index ! l) = Inr (js ! l)"
      by (rule norm_indices_nth)
    from that nonneg have "0 \<le> index ! l" by simp
    with e show ?thesis
      by (auto simp: norm_index_def split: if_splits)
  qed
  have distinct: "\<forall>l<length js. k < l \<longrightarrow> js ! l \<noteq> js ! k"
  proof (intro allI impI)
    fix l assume l: "l < length js" "k < l"
    with last len have "index ! l \<noteq> index ! k" by simp
    moreover from l len nonneg k have "0 \<le> index ! l" "0 \<le> index ! k" by simp_all
    ultimately show "js ! l \<noteq> js ! k"
      using nth [of l] nth [of k] l len k by simp
  qed
  from len shape k nth [of k] distinct
  have "scatter (rows m) (zip js (rows v)) ! (js ! k) = rows v ! k"
    by (intro scatter_last) (simp_all add: shape0_def)
  with nth [of k] k show ?thesis
    by (simp add: m' shape0_def)
qed

lemma setitem_ok:
  "setitem self index pop = (self', None) \<longleftrightarrow>
   setitem_checks self index pop = None \<and>
   (\<exists>c v f w p.
      (if Encoding self \<noteq> None
       then bindE (assign_rows (Chrom self) index (Chrom pop)) (\<lambda>r. Inr (Some r))
       else Inr (Chrom self)) = Inr c \<and>
      assign_rows (ObjV self) index (ObjV pop) = Inr v \<and>
      np_put (FitnV self) index (Some (FitnV pop)) = Inr f \<and>
      (if CV self \<noteq> None
       then bindE (assign_rows (CV self) index (CV pop)) (\<lambda>r. Inr (Some r))
       else Inr (CV self)) = Inr w \<and>
      assign_rows (Phen self) index (Phen pop) = Inr p \<and>
      self' = self\<lparr>Chrom := c, ObjV := Some v, FitnV := f, CV := w, Phen := Some p,
                    sizes := int (shape0 p)\<rparr>)"
  by (cases "setitem_checks self index pop")
    (auto simp: setitem_def step_eq_ok Let_def)

lemma np_put_unchanged:
  "np_put m index v = Inr m' \<Longrightarrow> unchanged_outside index (Some m) (Some m')"
  by (drule np_put_frame) (simp add: unchanged_outside_def nrows_def row_at_def)

lemma assign_rows_unchanged:
  "assign_rows x index v = Inr m' \<Longrightarrow> unchanged_outside index x (Some m')"
  by (cases x) (simp_all add: assign_rows_def np_put_unchanged)

lemma guarded_assign_unchanged:
  assumes "(if b then bindE (assign_rows x index v) (\<lambda>r. Inr (Some r)) else Inr x) = Inr c"
  shows "unchanged_outside index x c"
proof (cases b)
  case True
  with assms show ?thesis
    by (auto simp: bindE_eq_Inr intro: assign_rows_unchanged)
next
  case False
  with assms show ?thesis
    by (auto simp: unchanged_outside_def)
qed

lemma np_put_assigned:
  assumes "np_put m index (Some v) = Inr m'" and "fits index (Some v) (Some m)"
    and "\<forall>i\<in>set index. 0 \<le> i"
  shows "assigned_from index (Some v) (Some m')"
  unfolding assigned_from_def
proof (intro allI impI)
  fix k assume k: "k < length index"
    and last: "\<forall>l<length index. k < l \<longrightarrow> index ! l \<noteq> index ! k"
  from assms(2) have sh: "shape0 v = length index" "shape1 v = shape1 m"
    by (simp_all add: fits_def)
  from np_put_written [OF assms(1) sh k assms(3) last] k sh
  show "row_at (Some m') (nat (index ! k)) = row_at (Some v) k"
    by (simp add: row_at_def)
qed

lemma assign_rows_assigned:
  "assign_rows x index v = Inr m' \<Longrightarrow> fits index v x \<Longrightarrow> \<forall>i\<in>set index. 0 \<le> i \<Longrightarrow>
   assigned_from index v (Some m')"
  by (cases x; cases v) (simp_all add: assign_rows_def np_put_assigned fits_def)

lemma setitem_eval3_pair2:
  "setitem eval3 [2, 0] pair2 =
     (eval3\<lparr>Chrom := Some (Matrix 2 [[Num 9, Num 0], [Num 3, Num 4], [Num 7, Num 8]]),
            ObjV := Some (Matrix 1 [[Num 90], [Num 20], [Num 70]]),
            FitnV := Matrix 1 [[Num 5], [Num 1], [Num 4]],
            Phen := Some (Matrix 2 [[Num 9, Num 0], [Num 3, Num 4], [Num 7, Num 8]])\<rparr>, None)"
  by code_simp

subsection \<open>Indexed assignment without an encoding scheme\<close>

lemma np_put_error: "np_put m index v = Inl e \<Longrightarrow> e = ValueError \<or> e = IndexError"
proof -
  have n: "e' = IndexError" if "norm_indices k is = Inl e'" for k "is" e'
    using that
    by (induction "is") (auto simp: bindE_def norm_index_def split: sum.splits if_splits)
  assume "np_put m index v = Inl e"
  then show ?thesis
    by (auto simp: np_put_def bindE_def broadcast_to_def split: sum.splits option.splits if_splits
        dest: n)
qed

lemma assign_rows_error:
  "assign_rows x index v = Inl e \<Longrightarrow> e = TypeError \<or> e = ValueError \<or> e = IndexError"
  by (cases x) (auto simp: assign_rows_def dest: np_put_error)

lemma setitem_checks_None: "Encoding self = None \<Longrightarrow> setitem_checks self index pop = None"
  by (simp add: setitem_checks_def)

lemma setitem_None_error:
  assumes "Encoding self = None" and "setitem self index pop = (s, Some e)"
  shows "e = TypeError \<or> e = ValueError \<or> e = IndexError"
  using assms
  by (auto simp: setitem_def setitem_checks_None step_def Let_def bindE_def
      split: sum.splits if_splits dest: np_put_error assign_rows_error)

lemma setitem_stats3_single1:
  "setitem stats3 [0, 1] single1 =
     (stats3\<lparr>ObjV := Some (Matrix 1 [[Num 70], [Num 70], [Num 30]]),
             FitnV := Matrix 1 [[Num 5], [Num 5], [Num 1]],
             Phen := Some (Matrix 2 [[Num 8, Num 9], [Num 8, Num 9], [Num 5, Num 6]])\<rparr>, None)"
  by code_simp

subsection \<open>Shuffling\<close>

lemma is_permutation_valid:
  assumes "is_permutation n shuff"
  shows "length shuff = n" and "\<forall>i\<in>set shuff. 0 \<le> i \<and> i < int n"
proof -
  from assms have m: "mset shuff = mset (map int [0..<n])"
    by (simp add: is_permutation_def)
  from m have "size (mset shuff) = size (mset (map int [0..<n]))" by simp
  then show "length shuff = n" by simp
  from m have "set_mset (mset shuff) = set_mset (mset (map int [0..<n]))" by simp
  then have "set shuff = int ` {0..<n}" by simp
  then show "\<forall>i\<in>set shuff. 0 \<le> i \<and> i < int n" by auto
qed

lemma gather_permuted:
  assumes n: "shape0 m = n" and perm: "is_permutation n shuff"
  shows "permuted_by shuff (Some m) (Some (gather m shuff))"
proof -
  note v = is_permutation_valid [OF perm]
  have "mset (map (\<lambda>i. rows m ! nat i) shuff) = image_mset (\<lambda>i. rows m ! nat i) (mset shuff)"
    by simp
  also have "\<dots> = image_mset (\<lambda>i. rows m ! nat i) (mset (map int [0..<n]))"
    using perm by (simp add: is_permutation_def)
  also have "\<dots> = mset (map (\<lambda>j. rows m ! j) [0..<length (rows m)])"
    using n by (simp add: shape0_def comp_def flip: mset_map)
  also have "\<dots> = mset (rows m)"
    by (simp add: map_nth)
  finally have ms: "rows_mset (Some (gather m shuff)) = rows_mset (Some m)"
    by (simp add: rows_mset_def gather_def)
  have "row_at (Some (gather m shuff)) k = row_at (Some m) (nat (shuff ! k))"
    if "k < length shuff" for k
  proof -
    from that v(2) have "0 \<le> shuff ! k \<and> shuff ! k < int n" by simp
    then have "nat (shuff ! k) < n" by linarith
    with that n show ?thesis
      by (simp add: row_at_def gather_def shape0_def)
  qed
  with ms v(1) n show ?thesis
    by (simp add: permuted_by_def nrows_def gather_def shape0_def)
qed

lemma gather_option_permuted:
  "has_rows (int n) x \<Longrightarrow> is_permutation n shuff \<Longrightarrow>
   permuted_by shuff x (map_option (\<lambda>m. gather m shuff) x)"
proof (cases x)
  case None
  then show ?thesis by (simp add: permuted_by_def row_at_def)
next
  case (Some m)
  assume "has_rows (int n) x" "is_permutation n shuff"
  with Some show ?thesis
    by (simp add: has_rows_def gather_permuted)
qed

lemma shuffle_valid:
  assumes al: "row_aligned p" and ini: "initialized p"
    and perm: "is_permutation (nat (sizes p)) shuff"
  shows "shuffle p shuff =
         (p\<lparr>Chrom := map_option (\<lambda>m. gather m shuff) (Chrom p),
            ObjV := map_option (\<lambda>m. gather m shuff) (ObjV p),
            FitnV := gather (FitnV p) shuff,
            CV := map_option (\<lambda>m. gather m shuff) (CV p),
            Phen := map_option (\<lambda>m. gather m shuff) (Phen p)\<rparr>, None)"
proof -
  from al have nn: "0 \<le> sizes p"
    by (simp add: row_aligned_def flip: of_nat_0_le_iff [of "shape0 (FitnV p)"])
  with is_permutation_valid(2) [OF perm] have idx: "\<forall>i\<in>set shuff. 0 \<le> i \<and> i < sizes p"
    by simp
  from ini obtain ph where ph: "Phen p = Some ph"
    by (auto simp: initialized_def)
  from al have f: "np_take (FitnV p) shuff = Inr (gather (FitnV p) shuff)"
    using idx by (simp add: row_aligned_def np_take_valid gather_def)
  from al have o: "subscript_if_present (ObjV p) shuff = Inr (map_option (\<lambda>m. gather m shuff) (ObjV p))"
    using idx by (intro subscript_if_present_valid [where n = "sizes p"]) (simp_all add: row_aligned_def)
  from al have c: "subscript_if_present (CV p) shuff = Inr (map_option (\<lambda>m. gather m shuff) (CV p))"
    using idx by (intro subscript_if_present_valid [where n = "sizes p"]) (simp_all add: row_aligned_def)
  from al ph have h: "subscript (Phen p) shuff = Inr (gather ph shuff)"
    using idx by (simp add: row_aligned_def has_rows_def subscript_def np_take_valid gather_def)
  show ?thesis
  proof (cases "Encoding p")
    case None
    with ini have "Chrom p = None" by (simp add: initialized_def)
    with None nn f o c h ph show ?thesis
      by (simp add: shuffle_def)
  next
    case (Some e)
    with ini obtain g where g: "Chrom p = Some g"
      by (auto simp: initialized_def)
    from al g have "np_take g shuff = Inr (gather g shuff)"
      using idx by (simp add: row_aligned_def has_rows_def np_take_valid gather_def)
    with Some g nn f o c h ph show ?thesis
      by (simp add: shuffle_def)
  qed
qed

lemma shuffle_Phen_None:
  assumes "Phen p = None"
  shows "\<exists>e. snd (shuffle p shuff) = Some e"
proof -
  have "shuffle p shuff \<noteq> (p', None)" for p'
    using assms by (auto simp: shuffle_def step_eq_ok Let_def subscript_def)
  then show ?thesis
    by (cases "shuffle p shuff") auto
qed

lemma shuffle_undecoded3:
  "shuffle undecoded3 [2, 0, 1] =
     (undecoded3\<lparr>Chrom := Some (Matrix 2 [[Num 5, Num 6], [Num 1, Num 2], [Num 3, Num 4]])\<rparr>,
      Some TypeError)"
  by code_simp

lemma shuffle_eval3:
  "shuffle eval3 [2, 0, 1] =
     (eval3\<lparr>Chrom := Some (Matrix 2 [[Num 5, Num 6], [Num 1, Num 2], [Num 3, Num 4]]),
            ObjV := Some (Matrix 1 [[Num 30], [Num 10], [Num 20]]),
            Phen := Some (Matrix 2 [[Num 5, Num 6], [Num 1, Num 2], [Num 3, Num 4]])\<rparr>, None)"
  by code_simp

subsection \<open>Merging\<close>

lemma np_vstack_Some:
  "shape1 m = shape1 k \<Longrightarrow>
   np_vstack (Some m) (Some k) = Inr (Matrix (shape1 m) (rows m @ rows k))"
  by (simp add: np_vstack_def atleast_2d_def)

lemma np_vstack_shape0:
  "np_vstack (Some m) (Some k) = Inr r \<Longrightarrow> shape0 r = shape0 m + shape0 k"
  by (auto simp: np_vstack_def atleast_2d_def shape0_def Let_def split: if_splits)

lemma stacked_Some:
  "shape0 m = n \<Longrightarrow> c = shape1 m \<Longrightarrow>
   stacked n (Some m) (Some k) (Some (Matrix c (rows m @ rows k)))"
  by (simp add: stacked_def shape0_def shape1_def)

lemma merge_preconditionsD:
  assumes "merge_preconditions a b"
  shows "Encoding b = Encoding a" and "Field' b = Field' a"
    and "(CV a = None) = (CV b = None)"
    and "Encoding a \<noteq> None \<Longrightarrow> Chrom a \<noteq> None \<and> Chrom b \<noteq> None"
  using assms by (simp_all add: merge_preconditions_def split: if_splits)

lemma initialized_encoded:
  "initialized p \<Longrightarrow> Encoding p \<noteq> None \<Longrightarrow> Chrom p \<noteq> None \<and> Field' p \<noteq> None"
  by (simp add: initialized_def split: if_splits)

lemma add_valid:
  assumes pre: "merge_preconditions a b" and w: "same_widths a b"
    and al: "row_aligned a" "row_aligned b" and ini: "initialized a" "initialized b"
    and ov: "ObjV a = Some oa" "ObjV b = Some ob"
  shows "\<exists>c. add a b = Inr c \<and> sizes c = sizes a + sizes b \<and>
           Encoding c = Encoding a \<and> Field' c = Field' a \<and>
           stacked (nat (sizes a)) (Chrom a) (Chrom b) (Chrom c) \<and>
           stacked (nat (sizes a)) (ObjV a) (ObjV b) (ObjV c) \<and>
           stacked (nat (sizes a)) (Some (FitnV a)) (Some (FitnV b)) (Some (FitnV c)) \<and>
           stacked (nat (sizes a)) (CV a) (CV b) (CV c) \<and>
           stacked (nat (sizes a)) (Phen a) (Phen b) (Phen c)"
proof -
  from ini obtain pa pb where ph: "Phen a = Some pa" "Phen b = Some pb"
    by (auto simp: initialized_def)
  from al have nn: "0 \<le> sizes a" "0 \<le> sizes b"
    by (simp_all add: row_aligned_def flip: of_nat_0_le_iff [of "shape0 (FitnV a)"]
        of_nat_0_le_iff [of "shape0 (FitnV b)"])
  have n: "shape0 m = nat (sizes a)" if "has_rows (sizes a) (Some m)" for m :: "'b matrix"
    using that by (auto simp: has_rows_def)
  from w ov ph have wd: "shape1 oa = shape1 ob" "shape1 (FitnV a) = shape1 (FitnV b)"
    "shape1 pa = shape1 pb"
    by (simp_all add: same_widths_def same_width_def)
  from al(1) ov ph have r: "shape0 oa = nat (sizes a)" "shape0 (FitnV a) = nat (sizes a)"
    "shape0 pa = nat (sizes a)"
    by (auto simp: row_aligned_def has_rows_def)
  have cv: "\<exists>z. (if CV a \<noteq> None then bindE (np_vstack (CV a) (CV b)) (\<lambda>r. Inr (Some r))
                  else Inr (CV a)) = Inr z \<and> stacked (nat (sizes a)) (CV a) (CV b) z"
  proof (cases "CV a")
    case None
    with pre show ?thesis by (simp add: merge_preconditions_def stacked_def)
  next
    case (Some ca)
    with pre obtain cb where cb: "CV b = Some cb"
      by (auto simp: merge_preconditions_def)
    from w Some cb have "shape1 ca = shape1 cb"
      by (simp add: same_widths_def same_width_def)
    moreover from al(1) Some have "shape0 ca = nat (sizes a)"
      by (auto simp: row_aligned_def has_rows_def)
    ultimately show ?thesis
      using Some cb by (simp add: np_vstack_Some stacked_Some)
  qed
  then obtain z where z: "(if CV a \<noteq> None then bindE (np_vstack (CV a) (CV b)) (\<lambda>r. Inr (Some r))
                  else Inr (CV a)) = Inr z" and zs: "stacked (nat (sizes a)) (CV a) (CV b) z"
    by blast
  have vo: "np_vstack (ObjV a) (ObjV b) = Inr (Matrix (shape1 oa) (rows oa @ rows ob))"
    and vf: "np_vstack (Some (FitnV a)) (Some (FitnV b)) =
               Inr (Matrix (shape1 (FitnV a)) (rows (FitnV a) @ rows (FitnV b)))"
    and vp: "np_vstack (Phen a) (Phen b) = Inr (Matrix (shape1 pa) (rows pa @ rows pb))"
    using ov ph wd by (simp_all only: np_vstack_Some)
  have so: "stacked (nat (sizes a)) (ObjV a) (ObjV b) (Some (Matrix (shape1 oa) (rows oa @ rows ob)))"
    and sf: "stacked (nat (sizes a)) (Some (FitnV a)) (Some (FitnV b))
               (Some (Matrix (shape1 (FitnV a)) (rows (FitnV a) @ rows (FitnV b))))"
    and sp: "stacked (nat (sizes a)) (Phen a) (Phen b) (Some (Matrix (shape1 pa) (rows pa @ rows pb)))"
    unfolding ov ph by (rule stacked_Some [OF _ refl], rule r)+
  from nn have s: "0 \<le> sizes a + sizes b" by simp
  show ?thesis
  proof (cases "Encoding a")
    case None
    with ini pre have c: "Chrom a = None" "Chrom b = None" and fd: "Field' a = None"
      by (simp_all add: initialized_def merge_preconditions_def)
    have "add a b = init None None (sizes a + sizes b) None
            (Some (Matrix (shape1 oa) (rows oa @ rows ob)))
            (Some (Matrix (shape1 (FitnV a)) (rows (FitnV a) @ rows (FitnV b)))) z
            (Some (Matrix (shape1 pa) (rows pa @ rows pb)))"
      unfolding add_def vo vf vp z None fd by simp
    moreover have "stacked (nat (sizes a)) (Chrom a) (Chrom b) None"
      unfolding c by (simp add: stacked_def)
    ultimately show ?thesis
      using so sf sp zs s None fd by (simp add: init_def)
  next
    case (Some e)
    then have ne: "Encoding a \<noteq> None" by simp
    from merge_preconditionsD(4) [OF pre ne] initialized_encoded [OF ini(1) ne]
    obtain ga gb fd where g: "Chrom a = Some ga" "Chrom b = Some gb"
      and fda: "Field' a = Some fd"
      by auto
    from merge_preconditionsD(1,2) [OF pre] Some fda
    have fd: "Field' a = Some fd" "Field' b = Some fd" and eb: "Encoding b = Some e"
      by simp_all
    from w g have gw: "shape1 ga = shape1 gb"
      by (simp add: same_widths_def same_width_def)
    from al(1) g have gr: "shape0 ga = nat (sizes a)"
      by (auto simp: row_aligned_def has_rows_def)
    from pre have cvp: "(CV a = None) = (CV b = None)"
      by (simp add: merge_preconditions_def)
    have vg: "np_vstack (Chrom a) (Chrom b) = Inr (Matrix (shape1 ga) (rows ga @ rows gb))"
      using g gw by (simp only: np_vstack_Some)
    have sg: "stacked (nat (sizes a)) (Chrom a) (Chrom b)
                (Some (Matrix (shape1 ga) (rows ga @ rows gb)))"
      unfolding g by (rule stacked_Some [OF gr refl])
    have "add a b = init (Some e) (Some fd) (sizes a + sizes b)
            (Some (Matrix (shape1 ga) (rows ga @ rows gb)))
            (Some (Matrix (shape1 oa) (rows oa @ rows ob)))
            (Some (Matrix (shape1 (FitnV a)) (rows (FitnV a) @ rows (FitnV b)))) z
            (Some (Matrix (shape1 pa) (rows pa @ rows pb)))"
      unfolding add_def vo vf vp z vg Some fd eb using g cvp by simp
    then show ?thesis
      using sg so sf sp zs s Some fd by (simp add: init_def)
  qed
qed

lemma add_pair2_eval3:
  "add pair2 eval3 =
     Inr \<lparr> sizes = 5, Encoding = Some ''RI'', Field' = Some 0,
           Chrom = Some (Matrix 2 [[Num 7, Num 8], [Num 9, Num 0], [Num 1, Num 2], [Num 3, Num 4],
                                   [Num 5, Num 6]]),
           Lind = 2,
           ObjV = Some (Matrix 1 [[Num 70], [Num 90], [Num 10], [Num 20], [Num 30]]),
           FitnV = Matrix 1 [[Num 4], [Num 5], [Num 1], [Num 1], [Num 1]], CV = None,
           Phen = Some (Matrix 2 [[Num 7, Num 8], [Num 9, Num 0], [Num 1, Num 2], [Num 3, Num 4],
                                  [Num 5, Num 6]]) \<rparr>"
  by code_simp

lemma add_pair2_wide3: "add pair2 wide3 = Inl ValueError"
  by code_simp

lemma example_populations_valid:
  "row_aligned pair2" "row_aligned eval3" "row_aligned wide3" "row_aligned pop3"
  "initialized pair2" "initialized eval3" "initialized wide3" "initialized pop3"
  by (simp_all add: row_aligned_def has_rows_def initialized_def pair2_def eval3_def wide3_def
      pop3_def genes3_def shape0_def)

subsection \<open>Row alignment\<close>

lemma init_row_aligned:
  assumes "init enc fld n chrom objv fitnv cv phen = Inr p"
    and "has_rows n chrom" "has_rows n objv" "has_rows n fitnv" "has_rows n cv" "has_rows n phen"
  shows "row_aligned p"
proof -
  from assms(1) have n: "0 \<le> n"
    and p: "sizes p = n" "Chrom p = (if enc = None then None else chrom)" "ObjV p = objv"
      "FitnV p = (case fitnv of None \<Rightarrow> np_ones (nat n) 1 | Some f \<Rightarrow> f)" "CV p = cv"
      "Phen p = phen"
    by (auto simp: init_def split: if_splits)
  from n assms(4) have "int (shape0 (FitnV p)) = n"
    by (cases fitnv) (simp_all add: p has_rows_def np_ones_def shape0_def)
  with assms(2,3,5,6) show ?thesis
    by (simp add: row_aligned_def p has_rows_def)
qed

lemma init_row_aligned_iff:
  assumes "init enc fld n chrom objv fitnv cv phen = Inr p"
  shows "row_aligned p \<longleftrightarrow>
         (enc = None \<or> has_rows n chrom) \<and> has_rows n objv \<and> has_rows n fitnv \<and>
         has_rows n cv \<and> has_rows n phen"
proof -
  from assms have n: "0 \<le> n"
    and p: "sizes p = n" "Chrom p = (if enc = None then None else chrom)" "ObjV p = objv"
      "FitnV p = (case fitnv of None \<Rightarrow> np_ones (nat n) 1 | Some f \<Rightarrow> f)" "CV p = cv"
      "Phen p = phen"
    by (auto simp: init_def split: if_splits)
  from n have "int (shape0 (FitnV p)) = n \<longleftrightarrow> has_rows n fitnv"
    by (cases fitnv) (simp_all add: p has_rows_def np_ones_def shape0_def)
  then show ?thesis
    by (auto simp: row_aligned_def p has_rows_def)
qed

lemma subscript_if_present_has_rows:
  "subscript_if_present x index = Inr y \<Longrightarrow> has_rows (int (length index)) y"
  by (cases x) (auto simp: subscript_if_present_def has_rows_def bindE_eq_Inr dest: np_take_shape)

lemma getitem_row_aligned:
  assumes "getitem q index = Inr r"
  shows "row_aligned r"
proof -
  from assms obtain NewChrom NewFitnV NewObjV NewCV NewPhen where
    c: "(if Encoding q = None then Inr None
         else case Chrom q of None \<Rightarrow> Inl Chrom_is_None
              | Some c \<Rightarrow> bindE (np_take c index) (\<lambda>r. Inr (Some r))) = Inr NewChrom"
    and f: "np_take (FitnV q) index = Inr NewFitnV"
    and v: "subscript_if_present (ObjV q) index = Inr NewObjV"
    and w: "subscript_if_present (CV q) index = Inr NewCV"
    and h: "subscript (Phen q) index = Inr NewPhen"
    and i: "init (Encoding q) (Field' q) (int (shape0 NewFitnV)) NewChrom NewObjV
              (Some NewFitnV) NewCV (Some NewPhen) = Inr r"
    unfolding getitem_def bindE_eq_Inr by blast
  from f have n: "shape0 NewFitnV = length index"
    by (simp add: np_take_shape)
  from c have "has_rows (int (length index)) NewChrom"
    by (auto simp: has_rows_def bindE_eq_Inr split: if_splits option.splits dest: np_take_shape)
  moreover from h have "has_rows (int (length index)) (Some NewPhen)"
    by (cases "Phen q") (auto simp: subscript_def has_rows_def dest: np_take_shape)
  moreover have "has_rows (int (length index)) (Some NewFitnV)"
    by (simp add: has_rows_def n)
  ultimately show ?thesis
    using i v w unfolding n
    by (intro init_row_aligned [OF i [unfolded n]]) (simp_all add: subscript_if_present_has_rows)
qed

lemma unchanged_outside_has_rows:
  "unchanged_outside index x x' \<Longrightarrow> has_rows n x \<Longrightarrow> has_rows n x'"
  by (cases x; cases x') (auto simp: unchanged_outside_def has_rows_def nrows_def)

lemma setitem_row_aligned:
  assumes al: "row_aligned s" and ok: "setitem s index pop = (s', None)"
  shows "row_aligned s'"
proof -
  from ok obtain c v f w p where
    c: "(if Encoding s \<noteq> None
         then bindE (assign_rows (Chrom s) index (Chrom pop)) (\<lambda>r. Inr (Some r))
         else Inr (Chrom s)) = Inr c"
    and v: "assign_rows (ObjV s) index (ObjV pop) = Inr v"
    and f: "np_put (FitnV s) index (Some (FitnV pop)) = Inr f"
    and w: "(if CV s \<noteq> None
         then bindE (assign_rows (CV s) index (CV pop)) (\<lambda>r. Inr (Some r))
         else Inr (CV s)) = Inr w"
    and p: "assign_rows (Phen s) index (Phen pop) = Inr p"
    and s': "s' = s\<lparr>Chrom := c, ObjV := Some v, FitnV := f, CV := w, Phen := Some p,
                    sizes := int (shape0 p)\<rparr>"
    unfolding setitem_ok by blast
  from al have r: "has_rows (sizes s) (Chrom s)" "has_rows (sizes s) (ObjV s)"
    "has_rows (sizes s) (Some (FitnV s))" "has_rows (sizes s) (CV s)" "has_rows (sizes s) (Phen s)"
    by (simp_all add: row_aligned_def has_rows_def)
  note u = guarded_assign_unchanged [OF c] assign_rows_unchanged [OF v] np_put_unchanged [OF f]
    guarded_assign_unchanged [OF w] assign_rows_unchanged [OF p]
  from unchanged_outside_has_rows [OF u(5) r(5)] have n: "int (shape0 p) = sizes s"
    by (simp add: has_rows_def)
  from unchanged_outside_has_rows [OF u(1) r(1)] unchanged_outside_has_rows [OF u(2) r(2)]
    unchanged_outside_has_rows [OF u(3) r(3)] unchanged_outside_has_rows [OF u(4) r(4)]
    unchanged_outside_has_rows [OF u(5) r(5)]
  show ?thesis
    by (simp add: row_aligned_def s' n has_rows_def)
qed

lemma np_vstack_has_rows:
  "np_vstack (Some m) (Some k) = Inr r \<Longrightarrow> has_rows na (Some m) \<Longrightarrow> has_rows nb (Some k) \<Longrightarrow>
   has_rows (na + nb) (Some r)"
  by (auto simp: has_rows_def dest: np_vstack_shape0)

lemma add_row_aligned:
  assumes al: "row_aligned a" "row_aligned b"
    and ov: "ObjV a \<noteq> None" "ObjV b \<noteq> None" and ph: "Phen a \<noteq> None" "Phen b \<noteq> None"
    and cv: "(CV a = None) = (CV b = None)"
    and ok: "add a b = Inr c"
  shows "row_aligned c"
proof -
  from ok obtain NewChrom NewObjV NewFitnV NewCV NewPhen where
    g: "(if Encoding a = None then Inr None
         else if Encoding a \<noteq> Encoding b then Inl Encoding_disagree
         else if Field' a \<noteq> Field' b then Inl Field_disagree
         else if Chrom a = None \<or> Chrom b = None then Inl Chrom_is_None
         else if (CV a = None) \<noteq> (CV b = None) then Inl CV_disagree
         else bindE (np_vstack (Chrom a) (Chrom b)) (\<lambda>r. Inr (Some r))) = Inr NewChrom"
    and v: "np_vstack (ObjV a) (ObjV b) = Inr NewObjV"
    and f: "np_vstack (Some (FitnV a)) (Some (FitnV b)) = Inr NewFitnV"
    and w: "(if CV a \<noteq> None then bindE (np_vstack (CV a) (CV b)) (\<lambda>r. Inr (Some r))
             else Inr (CV a)) = Inr NewCV"
    and h: "np_vstack (Phen a) (Phen b) = Inr NewPhen"
    and i: "init (Encoding a) (Field' a) (sizes a + sizes b) NewChrom (Some NewObjV)
              (Some NewFitnV) NewCV (Some NewPhen) = Inr c"
    unfolding add_def bindE_eq_Inr by blast
  from al have ra: "has_rows (sizes a) (Chrom a)" "has_rows (sizes a) (ObjV a)"
    "has_rows (sizes a) (Some (FitnV a))" "has_rows (sizes a) (CV a)" "has_rows (sizes a) (Phen a)"
    and rb: "has_rows (sizes b) (Chrom b)" "has_rows (sizes b) (ObjV b)"
    "has_rows (sizes b) (Some (FitnV b))" "has_rows (sizes b) (CV b)" "has_rows (sizes b) (Phen b)"
    by (simp_all add: row_aligned_def has_rows_def)
  have 1: "has_rows (sizes a + sizes b) NewChrom"
  proof (cases NewChrom)
    case None
    then show ?thesis by (simp add: has_rows_def)
  next
    case (Some r)
    with g obtain ga gb where "Chrom a = Some ga" "Chrom b = Some gb"
      "np_vstack (Some ga) (Some gb) = Inr r"
      by (auto simp: bindE_eq_Inr split: if_splits)
    with ra(1) rb(1) Some show ?thesis
      by (auto intro: np_vstack_has_rows)
  qed
  from ov v ra(2) rb(2) have 2: "has_rows (sizes a + sizes b) (Some NewObjV)"
    by (auto intro: np_vstack_has_rows)
  from f ra(3) rb(3) have 3: "has_rows (sizes a + sizes b) (Some NewFitnV)"
    by (rule np_vstack_has_rows)
  have 4: "has_rows (sizes a + sizes b) NewCV"
  proof (cases "CV a")
    case None
    with w show ?thesis by (simp add: has_rows_def)
  next
    case (Some ca)
    with cv obtain cb where cb: "CV b = Some cb" by auto
    with Some w obtain r where "NewCV = Some r" "np_vstack (Some ca) (Some cb) = Inr r"
      by (auto simp: bindE_eq_Inr)
    with ra(4) rb(4) Some cb show ?thesis
      by (auto intro: np_vstack_has_rows)
  qed
  from ph h ra(5) rb(5) have 5: "has_rows (sizes a + sizes b) (Some NewPhen)"
    by (auto intro: np_vstack_has_rows)
  from i 1 2 3 4 5 show ?thesis
    by (rule init_row_aligned)
qed

lemma shuffle_row_aligned:
  assumes perm: "is_permutation (nat (sizes t)) shuff" and ok: "shuffle t shuff = (t', None)"
  shows "row_aligned t'"
proof -
  from ok obtain c v f w p where
    c: "(if sizes t < 0 then Inl ValueError
         else if Encoding t = None then Inr None
         else case Chrom t of None \<Rightarrow> Inl Chrom_is_None
              | Some c \<Rightarrow> bindE (np_take c shuff) (\<lambda>r. Inr (Some r))) = Inr c"
    and v: "subscript_if_present (ObjV t) shuff = Inr v"
    and f: "np_take (FitnV t) shuff = Inr f"
    and w: "subscript_if_present (CV t) shuff = Inr w"
    and p: "subscript (Phen t) shuff = Inr p"
    and t': "t' = t\<lparr>Chrom := c, ObjV := v, FitnV := f, CV := w, Phen := Some p\<rparr>"
    unfolding shuffle_def step_eq_ok Let_def by auto
  from c have "0 \<le> sizes t" by (auto split: if_splits)
  with is_permutation_valid(1) [OF perm] have n: "int (length shuff) = sizes t"
    by simp
  from c have "has_rows (int (length shuff)) c"
    by (auto simp: has_rows_def bindE_eq_Inr split: if_splits option.splits dest: np_take_shape)
  moreover from p have "has_rows (int (length shuff)) (Some p)"
    by (cases "Phen t") (auto simp: subscript_def has_rows_def dest: np_take_shape)
  moreover from f have "int (shape0 f) = int (length shuff)"
    by (simp add: np_take_shape)
  ultimately show ?thesis
    using subscript_if_present_has_rows [OF v] subscript_if_present_has_rows [OF w]
    by (simp add: row_aligned_def t' n)
qed

lemma initChrom_row_aligned:
  assumes gen: "generator_contract crtpc" and cod: "codec_contract bs2ri"
    and ok: "initChrom crtpc bs2ri u nind = (u', None)"
  shows "row_aligned u'"
proof -
  define s1 where "s1 = (case nind of None \<Rightarrow> u | Some n \<Rightarrow> u\<lparr>sizes := n\<rparr>)"
  from ok obtain c f p where
    c: "crtpc (Encoding s1) (sizes s1) (Field' s1) = Inr c"
    and f: "(if sizes s1 < 0 then Inl ValueError else Inr (np_ones (nat (sizes s1)) 1)) = Inr f"
    and p: "decoding bs2ri (s1\<lparr>Chrom := Some c, Lind := shape1 c, ObjV := None, FitnV := f,
              CV := None\<rparr>) = Inr p"
    and u': "u' = s1\<lparr>Chrom := Some c, Lind := shape1 c, ObjV := None, FitnV := f, CV := None,
              Phen := Some p\<rparr>"
    unfolding initChrom_def step_eq_ok Let_def s1_def [symmetric] by (auto cong: if_cong)
  from f have n: "0 \<le> sizes s1" and fv: "f = np_ones (nat (sizes s1)) 1"
    by (auto split: if_splits)
  from gen n c have rc: "int (shape0 c) = sizes s1"
    unfolding generator_contract_def by blast
  from p cod have "shape0 p = shape0 c"
    by (auto simp: decoding_def codec_contract_def split: if_splits)
  with rc n show ?thesis
    by (simp add: row_aligned_def u' has_rows_def fv np_ones_def shape0_def)
qed

lemma init_misaligned3:
  "init (Some ''RI'') (Some 0) 3 (Some (Matrix 2 [[Num 1, Num 2], [Num 3, Num 4]])) None None
     None None = Inr misaligned3"
  by code_simp

lemma init_undecoded3:
  "init (Some ''RI'') (Some 0) 3 (Some genes3) None None None None = Inr undecoded3"
  by code_simp

lemma getitem_pop3:
  "getitem pop3 [2, 0, 2] =
     Inr \<lparr> sizes = 3, Encoding = Some ''RI'', Field' = Some 0,
           Chrom = Some (Matrix 2 [[Num 5, Num 6], [Num 1, Num 2], [Num 5, Num 6]]), Lind = 2,
           ObjV = None, FitnV = Matrix 1 [[Num 1], [Num 1], [Num 1]], CV = None,
           Phen = Some (Matrix 2 [[Num 5, Num 6], [Num 1, Num 2], [Num 5, Num 6]]) \<rparr>"
  by code_simp

lemma initChrom_pop3:
  "initChrom zeros_generator no_codec pop3 (Some 2) =
     (pop3\<lparr>sizes := 2, Chrom := Some (Matrix 2 [[Num 0, Num 0], [Num 0, Num 0]]),
           FitnV := Matrix 1 [[Num 1], [Num 1]],
           Phen := Some (Matrix 2 [[Num 0, Num 0], [Num 0, Num 0]])\<rparr>, None)"
  by code_simp

section \<open>The claims\<close>

subsection \<open>C1: row alignment\<close>

text \<open>
  C1 (row alignment after every public operation). \<^verbatim>\<open>__init__\<close> tests only \<^verbatim>\<open>NIND\<close>; it
  stores the matrices it is given, whatever their row counts. Constructed with
  \<^verbatim>\<open>NIND = 3\<close> and a genotype of two rows, the population has size 3 and a genotype of two
  rows.
\<close>

theorem row_alignment_preserved_counterexample:
  "init (Some ''RI'') (Some 0) 3 (Some (Matrix 2 [[Num 1, Num 2], [Num 3, Num 4]])) None None
     None None = Inr misaligned3 \<and>
   sizes misaligned3 = 3 \<and> nrows (Chrom misaligned3) = 2 \<and> \<not> row_aligned misaligned3"
  by (simp add: init_misaligned3)
    (simp add: misaligned3_def row_aligned_def has_rows_def nrows_def shape0_def)

text \<open>
  C1, as the code has it. Every present attribute matrix has \<^verbatim>\<open>sizes\<close> rows
  \<^item> after a construction, exactly when every matrix that the constructor stores has
    \<^verbatim>\<open>NIND\<close> rows (it stores its arguments as they are, except a genotype given without
    an encoding scheme, and compares no row count with \<^verbatim>\<open>NIND\<close>);
  \<^item> in every indexed view that is returned;
  \<^item> after a successful indexed assignment to a row-aligned population;
  \<^item> in the merge of two row-aligned populations whose objective values and phenotypes
    are present and whose constraint violations are present in both or in neither;
  \<^item> after a successful shuffle by a permutation of the row numbers;
  \<^item> after a successful \<^verbatim>\<open>initChrom\<close>, when the chromosome generator and the codec keep
    their contracts.
\<close>

theorem row_alignment_preserved:
  "(init enc fld n chrom objv fitnv cv phen = Inr p \<longrightarrow>
      (row_aligned p \<longleftrightarrow>
         (enc = None \<or> has_rows n chrom) \<and> has_rows n objv \<and> has_rows n fitnv \<and>
         has_rows n cv \<and> has_rows n phen)) \<and>
   (getitem q index = Inr r \<longrightarrow> row_aligned r) \<and>
   (row_aligned s \<and> setitem s index' pop = (s', None) \<longrightarrow> row_aligned s') \<and>
   (row_aligned a \<and> row_aligned b \<and> ObjV a \<noteq> None \<and> ObjV b \<noteq> None \<and>
      Phen a \<noteq> None \<and> Phen b \<noteq> None \<and> (CV a = None) = (CV b = None) \<and>
      add a b = Inr c \<longrightarrow> row_aligned c) \<and>
   (is_permutation (nat (sizes t)) shuff \<and> shuffle t shuff = (t', None) \<longrightarrow> row_aligned t') \<and>
   (generator_contract crtpc \<and> codec_contract bs2ri \<and>
      initChrom crtpc bs2ri u nind = (u', None) \<longrightarrow> row_aligned u')"
proof (intro conjI impI)
  assume "init enc fld n chrom objv fitnv cv phen = Inr p"
  then show "row_aligned p \<longleftrightarrow>
         (enc = None \<or> has_rows n chrom) \<and> has_rows n objv \<and> has_rows n fitnv \<and>
         has_rows n cv \<and> has_rows n phen"
    by (rule init_row_aligned_iff)
next
  assume "getitem q index = Inr r"
  then show "row_aligned r" by (rule getitem_row_aligned)
next
  assume "row_aligned s \<and> setitem s index' pop = (s', None)"
  then show "row_aligned s'"
    using setitem_row_aligned [of s index' pop s'] by simp
next
  assume "row_aligned a \<and> row_aligned b \<and> ObjV a \<noteq> None \<and> ObjV b \<noteq> None \<and>
      Phen a \<noteq> None \<and> Phen b \<noteq> None \<and> (CV a = None) = (CV b = None) \<and> add a b = Inr c"
  then show "row_aligned c"
    using add_row_aligned [of a b c] by simp
next
  assume "is_permutation (nat (sizes t)) shuff \<and> shuffle t shuff = (t', None)"
  then show "row_aligned t'"
    using shuffle_row_aligned [of t shuff t'] by simp
next
  assume "generator_contract crtpc \<and> codec_contract bs2ri \<and>
      initChrom crtpc bs2ri u nind = (u', None)"
  then show "row_aligned u'"
    using initChrom_row_aligned [of crtpc bs2ri u nind u'] by simp
qed

theorem row_alignment_preserved_witness:
  "init (Some ''RI'') (Some 0) 3 (Some genes3) None None None None = Inr undecoded3 \<and>
   row_aligned undecoded3 \<and>
   (case getitem pop3 [2, 0, 2] of Inl e \<Rightarrow> False | Inr r \<Rightarrow> row_aligned r) \<and>
   row_aligned eval3 \<and> snd (setitem eval3 [2, 0] pair2) = None \<and>
   row_aligned (fst (setitem eval3 [2, 0] pair2)) \<and>
   row_aligned pair2 \<and> (case add pair2 eval3 of Inl e \<Rightarrow> False | Inr c \<Rightarrow> row_aligned c) \<and>
   is_permutation (nat (sizes eval3)) [2, 0, 1] \<and> snd (shuffle eval3 [2, 0, 1]) = None \<and>
   row_aligned (fst (shuffle eval3 [2, 0, 1])) \<and>
   generator_contract zeros_generator \<and> codec_contract no_codec \<and>
   snd (initChrom zeros_generator no_codec pop3 (Some 2)) = None \<and>
   row_aligned (fst (initChrom zeros_generator no_codec pop3 (Some 2)))"
proof -
  define q where "q = projr (getitem pop3 [2, 0, 2])"
  define s' where "s' = fst (setitem eval3 [2, 0] pair2)"
  define c where "c = projr (add pair2 eval3)"
  define t' where "t' = fst (shuffle eval3 [2, 0, 1])"
  define u' where "u' = fst (initChrom zeros_generator no_codec pop3 (Some 2))"
  note T = row_alignment_preserved [where enc = "Some ''RI''" and fld = "Some 0" and n = 3
      and chrom = "Some genes3" and objv = None and fitnv = None and cv = None and phen = None
      and p = undecoded3 and q = pop3 and index = "[2, 0, 2]" and r = q
      and s = eval3 and index' = "[2, 0]" and pop = pair2 and s' = s'
      and a = pair2 and b = eval3 and c = c and t = eval3 and shuff = "[2, 0, 1]" and t' = t'
      and crtpc = zeros_generator and bs2ri = no_codec and u = pop3 and nind = "Some 2"
      and u' = u']
  have i: "init (Some ''RI'') (Some 0) 3 (Some genes3) None None None None = Inr undecoded3"
    by (rule init_undecoded3)
  have h: "has_rows 3 (Some genes3)" "has_rows 3 (None :: int matrix option)"
    by (simp_all add: has_rows_def genes3_def shape0_def)
  have g: "getitem pop3 [2, 0, 2] = Inr q"
    by (simp add: q_def getitem_pop3)
  have s: "setitem eval3 [2, 0] pair2 = (s', None)"
    by (simp add: s'_def setitem_eval3_pair2)
  have m: "add pair2 eval3 = Inr c"
    by (simp add: c_def add_pair2_eval3)
  have o: "ObjV pair2 \<noteq> None" "ObjV eval3 \<noteq> None" "Phen pair2 \<noteq> None" "Phen eval3 \<noteq> None"
    "(CV pair2 = None) = (CV eval3 = None)"
    by (simp_all add: pair2_def eval3_def pop3_def)
  have "nat (sizes eval3) = 3"
    by (simp add: eval3_def pop3_def)
  then have p: "is_permutation (nat (sizes eval3)) [2, 0, 1]"
    by (simp add: is_permutation_def upt_rec)
  have f: "shuffle eval3 [2, 0, 1] = (t', None)"
    by (simp add: t'_def shuffle_eval3)
  have k: "generator_contract zeros_generator" "codec_contract no_codec"
    by (auto simp: generator_contract_def codec_contract_def zeros_generator_def no_codec_def
        shape0_def)
  have e: "initChrom zeros_generator no_codec pop3 (Some 2) = (u', None)"
    by (simp add: u'_def initChrom_pop3)
  note v = example_populations_valid
  from i h g s m o p f k e v(1,2) T
  have "row_aligned undecoded3 \<and> row_aligned q \<and> row_aligned s' \<and> row_aligned c \<and>
    row_aligned t' \<and> row_aligned u'"
    by simp
  with i g s m p f k e v(1,2) show ?thesis
    unfolding s'_def [symmetric] t'_def [symmetric] u'_def [symmetric] by simp
qed

subsection \<open>C2: the indexed view gathers rows\<close>

text \<open>
  C2 (slice-gather consistency). For an initialized, row-aligned population \<open>p\<close> and a
  sequence \<open>index\<close> of valid 0-based row indices, which may repeat or omit rows, the
  indexed view \<open>p[index]\<close> is a new population whose size is the length of \<open>index\<close>; row
  \<open>k\<close> of its phenotype is row \<open>index[k]\<close> of the phenotype of \<open>p\<close>, and every other
  attribute is gathered by \<open>index\<close> in the same way, an absent one staying absent.
\<close>

theorem getitem_slice_gather:
  assumes "row_aligned p" and "initialized p" and "\<forall>i\<in>set index. 0 \<le> i \<and> i < sizes p"
  shows "\<exists>q ph ph'. getitem p index = Inr q \<and> sizes q = int (length index) \<and>
           Phen p = Some ph \<and> Phen q = Some ph' \<and>
           (\<forall>k<length index. rows ph' ! k = rows ph ! nat (index ! k)) \<and>
           Chrom q = map_option (\<lambda>m. gather m index) (Chrom p) \<and>
           ObjV q = map_option (\<lambda>m. gather m index) (ObjV p) \<and>
           FitnV q = gather (FitnV p) index \<and>
           CV q = map_option (\<lambda>m. gather m index) (CV p) \<and>
           Phen q = map_option (\<lambda>m. gather m index) (Phen p)"
proof -
  from assms(2) obtain ph where ph: "Phen p = Some ph"
    by (auto simp: initialized_def)
  have "\<forall>k<length index. rows (gather ph index) ! k = rows ph ! nat (index ! k)"
    by (simp add: gather_def)
  with ph show ?thesis
    unfolding getitem_valid [OF assms] by simp
qed

theorem getitem_slice_gather_witness:
  "row_aligned pop3 \<and> initialized pop3 \<and>
   (case getitem pop3 [2, 0, 2] of
      Inl e \<Rightarrow> False
    | Inr q \<Rightarrow> sizes q = 3 \<and>
        Phen q = Some (Matrix 2 [[Num 5, Num 6], [Num 1, Num 2], [Num 5, Num 6]]) \<and>
        Chrom q = Some (Matrix 2 [[Num 5, Num 6], [Num 1, Num 2], [Num 5, Num 6]]) \<and>
        FitnV q = Matrix 1 [[Num 1], [Num 1], [Num 1]] \<and> ObjV q = None \<and> CV q = None)"
proof -
  have a: "row_aligned pop3"
    by (simp add: row_aligned_def has_rows_def pop3_def genes3_def shape0_def)
  have i: "initialized pop3"
    by (simp add: initialized_def pop3_def)
  have v: "\<forall>i\<in>set [2, 0, 2]. 0 \<le> i \<and> i < sizes pop3"
    by (simp add: pop3_def)
  from getitem_slice_gather [OF a i v] obtain q where
    q: "getitem pop3 [2, 0, 2] = Inr q" and s: "sizes q = int (length [2, 0, 2 :: int])"
    and r: "Chrom q = map_option (\<lambda>m. gather m [2, 0, 2]) (Chrom pop3)"
      "ObjV q = map_option (\<lambda>m. gather m [2, 0, 2]) (ObjV pop3)"
      "FitnV q = gather (FitnV pop3) [2, 0, 2]"
      "CV q = map_option (\<lambda>m. gather m [2, 0, 2]) (CV pop3)"
      "Phen q = map_option (\<lambda>m. gather m [2, 0, 2]) (Phen pop3)"
    by blast
  from s r have "sizes q = 3 \<and>
        Phen q = Some (Matrix 2 [[Num 5, Num 6], [Num 1, Num 2], [Num 5, Num 6]]) \<and>
        Chrom q = Some (Matrix 2 [[Num 5, Num 6], [Num 1, Num 2], [Num 5, Num 6]]) \<and>
        FitnV q = Matrix 1 [[Num 1], [Num 1], [Num 1]] \<and> ObjV q = None \<and> CV q = None"
    by (simp add: pop3_def genes3_def gather_def)
  with a i q show ?thesis by simp
qed

subsection \<open>C3: merging\<close>

text \<open>
  C3 (merge size law). The preconditions that the specification lists do not make a merge
  succeed: \<^verbatim>\<open>__add__\<close> stacks the attributes with \<^verbatim>\<open>np.vstack\<close> and checks no shape. Two
  aligned, initialized populations with the same scheme and decode field, evaluated on
  one and on two objectives, cannot be merged.
\<close>

theorem add_concatenates_counterexample:
  "merge_preconditions pair2 wide3 \<and> row_aligned pair2 \<and> row_aligned wide3 \<and>
   initialized pair2 \<and> initialized wide3 \<and> add pair2 wide3 = Inl ValueError"
  by (simp add: add_pair2_wide3 example_populations_valid)
    (simp add: merge_preconditions_def pair2_def wide3_def pop3_def)

text \<open>
  C3, as the code has it. Let \<open>a\<close> and \<open>b\<close> be row-aligned, initialized populations that
  satisfy the merge preconditions, whose objective values are present and whose
  corresponding attributes have the same number of columns. Then \<open>a + b\<close> is a new
  population of size \<open>sizes a + sizes b\<close>; each of its attributes is the attribute of \<open>a\<close>
  stacked on that of \<open>b\<close> (absent when absent in both), so that its first \<open>sizes a\<close> rows
  are the rows of \<open>a\<close> and the rest the rows of \<open>b\<close>; the fitness is the concatenation of
  the two fitness columns as they are.
\<close>

theorem add_concatenates:
  assumes "merge_preconditions a b" and "same_widths a b"
    and "row_aligned a" and "row_aligned b" and "initialized a" and "initialized b"
    and "ObjV a \<noteq> None" and "ObjV b \<noteq> None"
  shows "\<exists>c. add a b = Inr c \<and> sizes c = sizes a + sizes b \<and>
           stacked (nat (sizes a)) (Chrom a) (Chrom b) (Chrom c) \<and>
           stacked (nat (sizes a)) (ObjV a) (ObjV b) (ObjV c) \<and>
           stacked (nat (sizes a)) (Some (FitnV a)) (Some (FitnV b)) (Some (FitnV c)) \<and>
           stacked (nat (sizes a)) (CV a) (CV b) (CV c) \<and>
           stacked (nat (sizes a)) (Phen a) (Phen b) (Phen c) \<and>
           rows (FitnV c) = rows (FitnV a) @ rows (FitnV b)"
proof -
  from assms(7,8) obtain oa ob where "ObjV a = Some oa" "ObjV b = Some ob"
    by auto
  from add_valid [OF assms(1-6) this] obtain c where
    c: "add a b = Inr c" "sizes c = sizes a + sizes b"
      "stacked (nat (sizes a)) (Chrom a) (Chrom b) (Chrom c)"
      "stacked (nat (sizes a)) (ObjV a) (ObjV b) (ObjV c)"
      "stacked (nat (sizes a)) (Some (FitnV a)) (Some (FitnV b)) (Some (FitnV c))"
      "stacked (nat (sizes a)) (CV a) (CV b) (CV c)"
      "stacked (nat (sizes a)) (Phen a) (Phen b) (Phen c)"
    by blast
  from c(5) have "rows (FitnV c) = rows (FitnV a) @ rows (FitnV b)"
    by (simp add: stacked_def)
  with c show ?thesis by blast
qed

theorem add_concatenates_witness:
  "merge_preconditions pair2 eval3 \<and> same_widths pair2 eval3 \<and>
   row_aligned pair2 \<and> row_aligned eval3 \<and> initialized pair2 \<and> initialized eval3 \<and>
   ObjV pair2 \<noteq> None \<and> ObjV eval3 \<noteq> None \<and>
   (case add pair2 eval3 of
      Inl e \<Rightarrow> False
    | Inr c \<Rightarrow> sizes c = 5 \<and>
        stacked 2 (Chrom pair2) (Chrom eval3) (Chrom c) \<and>
        stacked 2 (ObjV pair2) (ObjV eval3) (ObjV c) \<and>
        stacked 2 (Some (FitnV pair2)) (Some (FitnV eval3)) (Some (FitnV c)) \<and>
        stacked 2 (CV pair2) (CV eval3) (CV c) \<and>
        stacked 2 (Phen pair2) (Phen eval3) (Phen c) \<and>
        FitnV c = Matrix 1 [[Num 4], [Num 5], [Num 1], [Num 1], [Num 1]] \<and> CV c = None)"
proof -
  have m: "merge_preconditions pair2 eval3"
    by (simp add: merge_preconditions_def pair2_def eval3_def pop3_def)
  have w: "same_widths pair2 eval3"
    by (simp add: same_widths_def same_width_def pair2_def eval3_def pop3_def genes3_def
        shape1_def)
  have o: "ObjV pair2 \<noteq> None" "ObjV eval3 \<noteq> None"
    by (simp_all add: pair2_def eval3_def)
  note v = example_populations_valid
  have n: "nat (sizes pair2) = 2" "sizes pair2 + sizes eval3 = 5"
    by (simp_all add: pair2_def eval3_def pop3_def)
  from add_concatenates [OF m w v(1) v(2) v(5) v(6) o] obtain c where
    c: "add pair2 eval3 = Inr c" "sizes c = 5"
      "stacked 2 (Chrom pair2) (Chrom eval3) (Chrom c)"
      "stacked 2 (ObjV pair2) (ObjV eval3) (ObjV c)"
      "stacked 2 (Some (FitnV pair2)) (Some (FitnV eval3)) (Some (FitnV c))"
      "stacked 2 (CV pair2) (CV eval3) (CV c)"
      "stacked 2 (Phen pair2) (Phen eval3) (Phen c)"
    unfolding n by blast
  from c(1) have "FitnV c = Matrix 1 [[Num 4], [Num 5], [Num 1], [Num 1], [Num 1]] \<and> CV c = None"
    unfolding add_pair2_eval3 by auto
  with c m w v o show ?thesis by simp
qed

subsection \<open>C4: size mismatch in an indexed assignment\<close>

text \<open>
  C4 (size mismatch raises before any mutation). The test of the length of \<open>index\<close>
  against the size of \<open>pop\<close> stands under \<^verbatim>\<open>if self.Encoding is not None\<close>. Without an
  encoding scheme an index sequence of length 2 is assigned from a source of size 1: no
  error is raised, numpy repeats the one source row, and \<open>self\<close> is changed.
\<close>

theorem setitem_size_mismatch_counterexample:
  "int (length [0, 1 :: int]) \<noteq> sizes single1 \<and>
   setitem stats3 [0, 1] single1 =
     (stats3\<lparr>ObjV := Some (Matrix 1 [[Num 70], [Num 70], [Num 30]]),
             FitnV := Matrix 1 [[Num 5], [Num 5], [Num 1]],
             Phen := Some (Matrix 2 [[Num 8, Num 9], [Num 8, Num 9], [Num 5, Num 6]])\<rparr>, None)"
  by (simp add: setitem_stats3_single1) (simp add: single1_def)

text \<open>
  C4, as the code has it. When the encoding scheme of \<open>self\<close> is not \<^verbatim>\<open>None\<close> and the length
  of \<open>index\<close> differs from the size of \<open>pop\<close>, the assignment raises and leaves every
  attribute of \<open>self\<close> as it was: the error is the size mismatch when the two populations
  agree on the encoding scheme and the decode field, and the encoding or decode-field
  mismatch, which is tested first, when they do not.
\<close>

theorem setitem_size_mismatch:
  assumes "Encoding self \<noteq> None" and "int (length index) \<noteq> sizes pop"
  shows "(Encoding self = Encoding pop \<and> Field' self = Field' pop \<longrightarrow>
            setitem self index pop = (self, Some Sizes_disagree)) \<and>
         (Encoding self \<noteq> Encoding pop \<longrightarrow>
            setitem self index pop = (self, Some Encoding_disagree)) \<and>
         (Encoding self = Encoding pop \<and> Field' self \<noteq> Field' pop \<longrightarrow>
            setitem self index pop = (self, Some Field_disagree))"
  using assms by (auto simp: setitem_def setitem_checks_def)

theorem setitem_size_mismatch_witness:
  "Encoding eval3 \<noteq> None \<and> int (length [0, 1 :: int]) \<noteq> sizes pop3 \<and>
   Encoding eval3 = Encoding pop3 \<and> Field' eval3 = Field' pop3 \<and>
   setitem eval3 [0, 1] pop3 = (eval3, Some Sizes_disagree) \<and>
   Encoding eval3 \<noteq> Encoding stats3 \<and>
   setitem eval3 [0, 1] stats3 = (eval3, Some Encoding_disagree)"
proof -
  have h: "Encoding eval3 \<noteq> None" "int (length [0, 1 :: int]) \<noteq> sizes pop3"
    "int (length [0, 1 :: int]) \<noteq> sizes stats3"
    "Encoding eval3 = Encoding pop3 \<and> Field' eval3 = Field' pop3"
    "Encoding eval3 \<noteq> Encoding stats3"
    by (simp_all add: eval3_def pop3_def stats3_def)
  from setitem_size_mismatch [OF h(1) h(2)] setitem_size_mismatch [OF h(1) h(3)] h
  show ?thesis by simp
qed

subsection \<open>C5: the rows an indexed assignment leaves alone\<close>

text \<open>
  C5 (assignment preserves untouched rows). When the indexed assignment
  \<^verbatim>\<open>self[index] = pop\<close> succeeds, every attribute of \<open>self\<close> keeps its presence and its
  number of rows, and every row that no entry of \<open>index\<close> addresses is the row it was
  before the assignment. For a sequence of 0-based indices these are the rows \<open>r\<close> with
  \<open>r \<notin> set index\<close>. Each selected row then holds the corresponding row of the source
  attribute, whenever the source has one row for each index and the columns of the target
  (the genotype is written only under an encoding scheme, the constraint violations only
  when present).
\<close>

theorem setitem_frame:
  fixes self :: "('f, 'a) Population"
  assumes "setitem self index pop = (self', None)"
  shows "unchanged_outside index (Chrom self) (Chrom self') \<and>
         unchanged_outside index (ObjV self) (ObjV self') \<and>
         unchanged_outside index (Some (FitnV self)) (Some (FitnV self')) \<and>
         unchanged_outside index (CV self) (CV self') \<and>
         unchanged_outside index (Phen self) (Phen self') \<and>
         ((\<forall>i\<in>set index. 0 \<le> i) \<and> int r \<notin> set index \<longrightarrow>
            row_at (Chrom self') r = row_at (Chrom self) r \<and>
            row_at (ObjV self') r = row_at (ObjV self) r \<and>
            row_at (Some (FitnV self')) r = row_at (Some (FitnV self)) r \<and>
            row_at (CV self') r = row_at (CV self) r \<and>
            row_at (Phen self') r = row_at (Phen self) r) \<and>
         ((\<forall>i\<in>set index. 0 \<le> i) \<longrightarrow>
            (Encoding self \<noteq> None \<and> fits index (Chrom pop) (Chrom self) \<longrightarrow>
               assigned_from index (Chrom pop) (Chrom self')) \<and>
            (fits index (ObjV pop) (ObjV self) \<longrightarrow>
               assigned_from index (ObjV pop) (ObjV self')) \<and>
            (fits index (Some (FitnV pop)) (Some (FitnV self)) \<longrightarrow>
               assigned_from index (Some (FitnV pop)) (Some (FitnV self'))) \<and>
            (fits index (CV pop) (CV self) \<longrightarrow>
               assigned_from index (CV pop) (CV self')) \<and>
            (fits index (Phen pop) (Phen self) \<longrightarrow>
               assigned_from index (Phen pop) (Phen self')))"
proof -
  from assms obtain c v f w p where
    c: "(if Encoding self \<noteq> None
         then bindE (assign_rows (Chrom self) index (Chrom pop)) (\<lambda>r. Inr (Some r))
         else Inr (Chrom self)) = Inr c"
    and v: "assign_rows (ObjV self) index (ObjV pop) = Inr v"
    and f: "np_put (FitnV self) index (Some (FitnV pop)) = Inr f"
    and w: "(if CV self \<noteq> None
         then bindE (assign_rows (CV self) index (CV pop)) (\<lambda>r. Inr (Some r))
         else Inr (CV self)) = Inr w"
    and p: "assign_rows (Phen self) index (Phen pop) = Inr p"
    and self': "self' = self\<lparr>Chrom := c, ObjV := Some v, FitnV := f, CV := w, Phen := Some p,
                    sizes := int (shape0 p)\<rparr>"
    unfolding setitem_ok by blast
  have u: "unchanged_outside index (Chrom self) (Chrom self')"
    "unchanged_outside index (ObjV self) (ObjV self')"
    "unchanged_outside index (Some (FitnV self)) (Some (FitnV self'))"
    "unchanged_outside index (CV self) (CV self')"
    "unchanged_outside index (Phen self) (Phen self')"
    using guarded_assign_unchanged [OF c] assign_rows_unchanged [OF v] np_put_unchanged [OF f]
      guarded_assign_unchanged [OF w] assign_rows_unchanged [OF p]
    by (simp_all add: self')
  have lit: "row_at x' r = row_at x r"
    if "unchanged_outside index x x'" "\<forall>i\<in>set index. 0 \<le> i" "int r \<notin> set index"
    for x x' :: "'a matrix option"
    using that addressed_nonneg [of index "nrows x" r]
    by (auto simp: unchanged_outside_def)
  have a1: "assigned_from index (Chrom pop) (Chrom self')"
    if "\<forall>i\<in>set index. 0 \<le> i" "Encoding self \<noteq> None" "fits index (Chrom pop) (Chrom self)"
    using that c by (auto simp: self' bindE_eq_Inr intro: assign_rows_assigned)
  have a2: "assigned_from index (ObjV pop) (ObjV self')"
    if "\<forall>i\<in>set index. 0 \<le> i" "fits index (ObjV pop) (ObjV self)"
    using that v by (auto simp: self' intro: assign_rows_assigned)
  have a3: "assigned_from index (Some (FitnV pop)) (Some (FitnV self'))"
    if "\<forall>i\<in>set index. 0 \<le> i" "fits index (Some (FitnV pop)) (Some (FitnV self))"
    using that f by (auto simp: self' intro: np_put_assigned)
  have a4: "assigned_from index (CV pop) (CV self')"
    if "\<forall>i\<in>set index. 0 \<le> i" "fits index (CV pop) (CV self)"
  proof -
    from that(2) have "CV self \<noteq> None" by (auto simp: fits_def split: option.splits)
    with that w show ?thesis
      by (auto simp: self' bindE_eq_Inr intro: assign_rows_assigned)
  qed
  have a5: "assigned_from index (Phen pop) (Phen self')"
    if "\<forall>i\<in>set index. 0 \<le> i" "fits index (Phen pop) (Phen self)"
    using that p by (auto simp: self' intro: assign_rows_assigned)
  show ?thesis
    using u lit [OF u(1)] lit [OF u(2)] lit [OF u(3)] lit [OF u(4)] lit [OF u(5)] a1 a2 a3 a4 a5
    by blast
qed

theorem setitem_frame_witness:
  "snd (setitem eval3 [2, 0] pair2) = None \<and>
   unchanged_outside [2, 0] (Chrom eval3) (Chrom (fst (setitem eval3 [2, 0] pair2))) \<and>
   unchanged_outside [2, 0] (Phen eval3) (Phen (fst (setitem eval3 [2, 0] pair2))) \<and>
   row_at (Chrom (fst (setitem eval3 [2, 0] pair2))) 1 = row_at (Chrom eval3) 1 \<and>
   row_at (ObjV (fst (setitem eval3 [2, 0] pair2))) 1 = row_at (ObjV eval3) 1 \<and>
   row_at (Some (FitnV (fst (setitem eval3 [2, 0] pair2)))) 1 = row_at (Some (FitnV eval3)) 1 \<and>
   row_at (CV (fst (setitem eval3 [2, 0] pair2))) 1 = row_at (CV eval3) 1 \<and>
   row_at (Phen (fst (setitem eval3 [2, 0] pair2))) 1 = row_at (Phen eval3) 1 \<and>
   row_at (Phen eval3) 1 = Some [Num 3, Num 4] \<and>
   assigned_from [2, 0] (Chrom pair2) (Chrom (fst (setitem eval3 [2, 0] pair2))) \<and>
   assigned_from [2, 0] (ObjV pair2) (ObjV (fst (setitem eval3 [2, 0] pair2))) \<and>
   assigned_from [2, 0] (Phen pair2) (Phen (fst (setitem eval3 [2, 0] pair2))) \<and>
   row_at (Phen (fst (setitem eval3 [2, 0] pair2))) 2 = Some [Num 7, Num 8]"
proof -
  define res where "res = fst (setitem eval3 [2, 0] pair2)"
  have s: "setitem eval3 [2, 0] pair2 = (res, None)"
    by (simp add: res_def setitem_eval3_pair2)
  have i: "(\<forall>i\<in>set [2, 0 :: int]. 0 \<le> i) \<and> int 1 \<notin> set [2, 0]"
    by simp
  have e: "Encoding eval3 \<noteq> None"
    by (simp add: eval3_def pop3_def)
  have f: "fits [2, 0] (Chrom pair2) (Chrom eval3)" "fits [2, 0] (ObjV pair2) (ObjV eval3)"
    "fits [2, 0] (Phen pair2) (Phen eval3)"
    by (simp_all add: fits_def eval3_def pop3_def pair2_def genes3_def shape0_def shape1_def)
  have "Phen res = Some (Matrix 2 [[Num 9, Num 0], [Num 3, Num 4], [Num 7, Num 8]])"
    by (simp add: res_def setitem_eval3_pair2)
  then have r: "row_at (Phen eval3) 1 = Some [Num 3, Num 4]"
    "row_at (Phen res) 2 = Some [Num 7, Num 8]"
    by (simp_all add: row_at_def eval3_def pop3_def genes3_def shape0_def)
  from setitem_frame [OF s, of 1] i e f r s show ?thesis
    unfolding res_def [symmetric] by simp
qed

subsection \<open>C6: shuffling\<close>

text \<open>
  C6 (shuffle applies one permutation to every present attribute). The data model allows
  an absent phenotype (absent until decoded), and \<^verbatim>\<open>shuffle\<close> ends with
  \<^verbatim>\<open>self.Phen[shuff, :]\<close>: on the population built by \<^verbatim>\<open>Population('RI', Field, 3, Chrom)\<close>
  it raises, after it has permuted the genotype.
\<close>

theorem shuffle_common_permutation_counterexample:
  "is_permutation 3 [2, 0, 1] \<and> row_aligned undecoded3 \<and> Phen undecoded3 = None \<and>
   shuffle undecoded3 [2, 0, 1] =
     (undecoded3\<lparr>Chrom := Some (Matrix 2 [[Num 5, Num 6], [Num 1, Num 2], [Num 3, Num 4]])\<rparr>,
      Some TypeError)"
  by (simp add: shuffle_undecoded3)
    (simp add: is_permutation_def row_aligned_def has_rows_def undecoded3_def genes3_def
      shape0_def upt_rec)

text \<open>
  C6, as the code has it. For a row-aligned, initialized population (the phenotype is
  present, the genotype exactly when there is an encoding scheme) and a permutation
  \<open>shuff\<close> of its row numbers, \<^verbatim>\<open>shuffle\<close> succeeds and keeps the size; every attribute
  keeps its presence, its number of rows and the multiset of its rows, and row \<open>k\<close> of
  every attribute is the former row \<open>shuff[k]\<close> of that attribute, so the rows of one
  individual stay aligned across the attributes. With the phenotype absent \<^verbatim>\<open>shuffle\<close>
  raises, whatever the other attributes are.
\<close>

theorem shuffle_common_permutation:
  "(row_aligned p \<and> initialized p \<and> is_permutation (nat (sizes p)) shuff \<longrightarrow>
      (\<exists>p'. shuffle p shuff = (p', None) \<and> sizes p' = sizes p \<and>
            permuted_by shuff (Chrom p) (Chrom p') \<and>
            permuted_by shuff (ObjV p) (ObjV p') \<and>
            permuted_by shuff (Some (FitnV p)) (Some (FitnV p')) \<and>
            permuted_by shuff (CV p) (CV p') \<and>
            permuted_by shuff (Phen p) (Phen p'))) \<and>
   (Phen p = None \<longrightarrow> (\<exists>e. snd (shuffle p shuff) = Some e))"
proof (intro conjI impI)
  assume h: "row_aligned p \<and> initialized p \<and> is_permutation (nat (sizes p)) shuff"
  then have al: "row_aligned p" and ini: "initialized p"
    and perm: "is_permutation (nat (sizes p)) shuff"
    by simp_all
  from al have n: "int (nat (sizes p)) = sizes p"
    by (simp add: row_aligned_def flip: of_nat_0_le_iff [of "shape0 (FitnV p)"])
  from al n have r: "has_rows (int (nat (sizes p))) (Chrom p)"
    "has_rows (int (nat (sizes p))) (ObjV p)" "has_rows (int (nat (sizes p))) (CV p)"
    "has_rows (int (nat (sizes p))) (Phen p)" "shape0 (FitnV p) = nat (sizes p)"
    by (auto simp: row_aligned_def)
  from r(1-4) [THEN gather_option_permuted, OF perm] gather_permuted [OF r(5) perm]
  show "\<exists>p'. shuffle p shuff = (p', None) \<and> sizes p' = sizes p \<and>
            permuted_by shuff (Chrom p) (Chrom p') \<and>
            permuted_by shuff (ObjV p) (ObjV p') \<and>
            permuted_by shuff (Some (FitnV p)) (Some (FitnV p')) \<and>
            permuted_by shuff (CV p) (CV p') \<and>
            permuted_by shuff (Phen p) (Phen p')"
    unfolding shuffle_valid [OF al ini perm] by simp
next
  assume "Phen p = None"
  then show "\<exists>e. snd (shuffle p shuff) = Some e"
    by (rule shuffle_Phen_None)
qed

theorem shuffle_common_permutation_witness:
  "row_aligned eval3 \<and> initialized eval3 \<and> is_permutation (nat (sizes eval3)) [2, 0, 1] \<and>
   snd (shuffle eval3 [2, 0, 1]) = None \<and>
   sizes (fst (shuffle eval3 [2, 0, 1])) = 3 \<and>
   permuted_by [2, 0, 1] (Chrom eval3) (Chrom (fst (shuffle eval3 [2, 0, 1]))) \<and>
   permuted_by [2, 0, 1] (ObjV eval3) (ObjV (fst (shuffle eval3 [2, 0, 1]))) \<and>
   permuted_by [2, 0, 1] (Some (FitnV eval3)) (Some (FitnV (fst (shuffle eval3 [2, 0, 1])))) \<and>
   permuted_by [2, 0, 1] (CV eval3) (CV (fst (shuffle eval3 [2, 0, 1]))) \<and>
   permuted_by [2, 0, 1] (Phen eval3) (Phen (fst (shuffle eval3 [2, 0, 1]))) \<and>
   CV (fst (shuffle eval3 [2, 0, 1])) = None \<and>
   ObjV (fst (shuffle eval3 [2, 0, 1])) = Some (Matrix 1 [[Num 30], [Num 10], [Num 20]]) \<and>
   Phen (fst (shuffle eval3 [2, 0, 1])) =
     Some (Matrix 2 [[Num 5, Num 6], [Num 1, Num 2], [Num 3, Num 4]]) \<and>
   Phen undecoded3 = None \<and> snd (shuffle undecoded3 [2, 0, 1]) \<noteq> None"
proof -
  have a: "row_aligned eval3"
    by (simp add: row_aligned_def has_rows_def eval3_def pop3_def genes3_def shape0_def)
  have i: "initialized eval3"
    by (simp add: initialized_def eval3_def pop3_def)
  have "nat (sizes eval3) = 3"
    by (simp add: eval3_def pop3_def)
  then have p: "is_permutation (nat (sizes eval3)) [2, 0, 1]"
    by (simp add: is_permutation_def upt_rec)
  define res where "res = fst (shuffle eval3 [2, 0, 1])"
  have u: "Phen undecoded3 = None"
    by (simp add: undecoded3_def)
  with shuffle_common_permutation [of undecoded3 "[2, 0, 1]"]
  have e: "snd (shuffle undecoded3 [2, 0, 1]) \<noteq> None"
    by auto
  from shuffle_common_permutation [of eval3 "[2, 0, 1]"] a i p have
    "snd (shuffle eval3 [2, 0, 1]) = None \<and> sizes res = sizes eval3 \<and>
     permuted_by [2, 0, 1] (Chrom eval3) (Chrom res) \<and>
     permuted_by [2, 0, 1] (ObjV eval3) (ObjV res) \<and>
     permuted_by [2, 0, 1] (Some (FitnV eval3)) (Some (FitnV res)) \<and>
     permuted_by [2, 0, 1] (CV eval3) (CV res) \<and>
     permuted_by [2, 0, 1] (Phen eval3) (Phen res)"
    unfolding res_def by auto
  moreover have "sizes eval3 = 3"
    by (simp add: eval3_def pop3_def)
  moreover have "CV res = None \<and>
    ObjV res = Some (Matrix 1 [[Num 30], [Num 10], [Num 20]]) \<and>
    Phen res = Some (Matrix 2 [[Num 5, Num 6], [Num 1, Num 2], [Num 3, Num 4]])"
    unfolding res_def shuffle_eval3 by (simp add: eval3_def pop3_def)
  ultimately show ?thesis
    using a i p u e unfolding res_def [symmetric] by simp
qed

subsection \<open>C7: absent attributes in an indexed view\<close>

text \<open>
  C7 (presence of the optional attributes in a view). The view of a population whose
  phenotype is absent raises, as \<^verbatim>\<open>self.Phen[index]\<close> subscripts \<^verbatim>\<open>None\<close>: the population
  just built by \<^verbatim>\<open>Population('RI', Field, 3, Chrom)\<close> cannot be sliced.
\<close>

theorem getitem_optional_presence_counterexample:
  "init (Some ''RI'') (Some 0) 3 (Some genes3) None None None None = Inr undecoded3 \<and>
   Phen undecoded3 = None \<and> getitem undecoded3 [0] = Inl TypeError"
  by (simp add: init_def undecoded3_def genes3_def np_ones_def shape1_def getitem_def
      np_take_def shape0_def norm_index_def subscript_if_present_def subscript_def
      numeral_3_eq_3)

text \<open>
  C7, as the code has it. For an initialized, row-aligned population (so the phenotype is
  present) and valid indices the view succeeds, the objective values and the constraint
  violations are absent in the view exactly when they are absent in the source, and the
  phenotype of the view is present. When the phenotype of the source is absent the view
  raises an error, whatever the other attributes are.
\<close>

theorem getitem_optional_presence:
  "(row_aligned p \<and> initialized p \<and> (\<forall>i\<in>set index. 0 \<le> i \<and> i < sizes p) \<longrightarrow>
      (\<exists>q. getitem p index = Inr q \<and> (ObjV q = None \<longleftrightarrow> ObjV p = None) \<and>
            (CV q = None \<longleftrightarrow> CV p = None) \<and> Phen q \<noteq> None)) \<and>
   (Phen p = None \<longrightarrow> (\<exists>e. getitem p index = Inl e))"
proof (intro conjI impI)
  assume h: "row_aligned p \<and> initialized p \<and> (\<forall>i\<in>set index. 0 \<le> i \<and> i < sizes p)"
  then have "Phen p \<noteq> None" by (simp add: initialized_def)
  with h show "\<exists>q. getitem p index = Inr q \<and> (ObjV q = None \<longleftrightarrow> ObjV p = None) \<and>
            (CV q = None \<longleftrightarrow> CV p = None) \<and> Phen q \<noteq> None"
    by (simp add: getitem_valid)
next
  assume "Phen p = None"
  then have "\<And>q. getitem p index \<noteq> Inr q"
    by (auto simp: getitem_def bindE_eq_Inr subscript_def)
  then show "\<exists>e. getitem p index = Inl e"
    by (cases "getitem p index") auto
qed

theorem getitem_optional_presence_witness:
  "row_aligned pop3 \<and> initialized pop3 \<and>
   (case getitem pop3 [0, 1] of
      Inl e \<Rightarrow> False
    | Inr q \<Rightarrow> ObjV pop3 = None \<and> ObjV q = None \<and> CV pop3 = None \<and> CV q = None \<and>
        Phen q \<noteq> None) \<and>
   Phen undecoded3 = None \<and>
   (case getitem undecoded3 [0] of Inl e \<Rightarrow> True | Inr q \<Rightarrow> False)"
proof -
  have a: "row_aligned pop3"
    by (simp add: row_aligned_def has_rows_def pop3_def genes3_def shape0_def)
  have i: "initialized pop3"
    by (simp add: initialized_def pop3_def)
  have v: "\<forall>i\<in>set [0, 1]. 0 \<le> i \<and> i < sizes pop3"
    by (simp add: pop3_def)
  have n: "ObjV pop3 = None \<and> CV pop3 = None"
    by (simp add: pop3_def)
  have u: "Phen undecoded3 = None"
    by (simp add: undecoded3_def)
  from getitem_optional_presence [of pop3 "[0, 1]"] a i v n obtain q where
    "getitem pop3 [0, 1] = Inr q" "ObjV q = None" "CV q = None" "Phen q \<noteq> None"
    by auto
  moreover from getitem_optional_presence [of undecoded3 "[0]"] u obtain e where
    "getitem undecoded3 [0] = Inl e"
    by auto
  ultimately show ?thesis using a i n u by simp
qed

subsection \<open>C8: the chromosome length\<close>

text \<open>
  C8 (chromosome length). \<^verbatim>\<open>__init__\<close> reads \<^verbatim>\<open>Lind\<close> from its argument \<^verbatim>\<open>Chrom\<close>, not
  from \<^verbatim>\<open>self.Chrom\<close>: constructed with \<^verbatim>\<open>Encoding = None\<close> and a genotype of two columns,
  the population has no genotype and the chromosome length 2.
\<close>

theorem init_None_Lind_from_argument:
  "init None (Some (0::nat)) 3 (Some genes3) None None None None =
     Inr \<lparr> sizes = 3, Encoding = None, Field' = None, Chrom = None, Lind = 2, ObjV = None,
           FitnV = Matrix 1 [[Num 1], [Num 1], [Num 1]], CV = None, Phen = None \<rparr>"
  by (simp add: init_def genes3_def shape1_def np_ones_def numeral_3_eq_3)

subsection \<open>C9: decoding\<close>

text \<open>
  C9 (decoding). Under the schemes \<^verbatim>\<open>'RI'\<close> and \<^verbatim>\<open>'P'\<close> with the genotype present,
  \<^verbatim>\<open>decoding\<close> returns the genotype matrix itself, element for element (a copy: values
  do not alias in this model). Under any scheme other than \<^verbatim>\<open>'BG'\<close>, \<^verbatim>\<open>'RI'\<close> and \<^verbatim>\<open>'P'\<close>,
  \<^verbatim>\<open>None\<close> included, it raises the error of an unsupported encoding, whatever the codec.
\<close>

theorem decoding_copy_or_unsupported:
  "((Encoding self = Some ''RI'' \<or> Encoding self = Some ''P'') \<and> Chrom self = Some g \<longrightarrow>
      decoding bs2ri self = Inr g) \<and>
   (Encoding self \<noteq> Some ''BG'' \<and> Encoding self \<noteq> Some ''RI'' \<and> Encoding self \<noteq> Some ''P'' \<longrightarrow>
      decoding bs2ri self =
        Inl (RuntimeError ''error in Population.decoding: Encoding must be BG or RI or P.''))"
  by (simp add: decoding_def)

theorem decoding_copy_or_unsupported_witness:
  "decoding (\<lambda>c f. Inl ValueError) pop3 = Inr genes3 \<and>
   decoding (\<lambda>c f. Inl ValueError) (pop3\<lparr>Encoding := Some ''P''\<rparr>) = Inr genes3 \<and>
   decoding (\<lambda>c f. Inl ValueError) (pop3\<lparr>Encoding := None\<rparr>) =
     Inl (RuntimeError ''error in Population.decoding: Encoding must be BG or RI or P.'') \<and>
   decoding (\<lambda>c f. Inl ValueError) (pop3\<lparr>Encoding := Some ''XY''\<rparr>) =
     Inl (RuntimeError ''error in Population.decoding: Encoding must be BG or RI or P.'')"
  using decoding_copy_or_unsupported [of pop3 genes3 "\<lambda>c f. Inl ValueError"]
    decoding_copy_or_unsupported [of "pop3\<lparr>Encoding := Some ''P''\<rparr>" genes3 "\<lambda>c f. Inl ValueError"]
    decoding_copy_or_unsupported [of "pop3\<lparr>Encoding := None\<rparr>" genes3 "\<lambda>c f. Inl ValueError"]
    decoding_copy_or_unsupported [of "pop3\<lparr>Encoding := Some ''XY''\<rparr>" genes3 "\<lambda>c f. Inl ValueError"]
  by (simp add: pop3_def)

subsection \<open>C10: indexed assignment without an encoding scheme\<close>

text \<open>
  C10 (no precondition check without an encoding scheme). When the encoding scheme of
  \<open>self\<close> is \<^verbatim>\<open>None\<close>, the indexed assignment \<^verbatim>\<open>self[index] = pop\<close> makes none of the
  five tests: whatever the length of \<open>index\<close>, the size of \<open>pop\<close> and the presence of the
  constraint violations on either side, it raises none of the five errors of these tests.
  It succeeds exactly when the numpy assignments of the objective values, the fitness,
  the constraint violations (if \<open>self\<close> has them) and the phenotype succeed; the rows
  selected by \<open>index\<close> are then written from \<open>pop\<close> by these assignments, the genotype
  is left alone, and the size becomes the number of rows of the resulting phenotype.
\<close>

theorem setitem_without_encoding:
  assumes "Encoding self = None"
  shows "setitem_checks self index pop = None \<and>
         snd (setitem self index pop) \<notin>
           {Some Encoding_disagree, Some Field_disagree, Some Sizes_disagree,
            Some Chrom_is_None, Some CV_disagree} \<and>
         (setitem self index pop = (self', None) \<longleftrightarrow>
            (\<exists>v f w p.
               assign_rows (ObjV self) index (ObjV pop) = Inr v \<and>
               np_put (FitnV self) index (Some (FitnV pop)) = Inr f \<and>
               (if CV self \<noteq> None
                then bindE (assign_rows (CV self) index (CV pop)) (\<lambda>r. Inr (Some r))
                else Inr (CV self)) = Inr w \<and>
               assign_rows (Phen self) index (Phen pop) = Inr p \<and>
               self' = self\<lparr>ObjV := Some v, FitnV := f, CV := w, Phen := Some p,
                             sizes := int (shape0 p)\<rparr>))"
proof (intro conjI)
  show "setitem_checks self index pop = None"
    using assms by (rule setitem_checks_None)
  show "snd (setitem self index pop) \<notin>
           {Some Encoding_disagree, Some Field_disagree, Some Sizes_disagree,
            Some Chrom_is_None, Some CV_disagree}"
  proof (cases "setitem self index pop")
    case (Pair s eo)
    show ?thesis
    proof (cases eo)
      case None
      with Pair show ?thesis by simp
    next
      case (Some e)
      with Pair setitem_None_error [OF assms, of index pop s e] show ?thesis
        by (auto simp: Encoding_disagree_def Field_disagree_def Sizes_disagree_def
            Chrom_is_None_def CV_disagree_def)
    qed
  qed
  show "setitem self index pop = (self', None) \<longleftrightarrow>
            (\<exists>v f w p.
               assign_rows (ObjV self) index (ObjV pop) = Inr v \<and>
               np_put (FitnV self) index (Some (FitnV pop)) = Inr f \<and>
               (if CV self \<noteq> None
                then bindE (assign_rows (CV self) index (CV pop)) (\<lambda>r. Inr (Some r))
                else Inr (CV self)) = Inr w \<and>
               assign_rows (Phen self) index (Phen pop) = Inr p \<and>
               self' = self\<lparr>ObjV := Some v, FitnV := f, CV := w, Phen := Some p,
                             sizes := int (shape0 p)\<rparr>)"
    unfolding setitem_ok using assms by (auto simp: setitem_checks_None)
qed

theorem setitem_without_encoding_witness:
  "Encoding stats3 = None \<and> int (length [0, 1 :: int]) \<noteq> sizes single1 \<and>
   (CV stats3 = None) \<noteq> (CV single1 = None) \<and>
   setitem_checks stats3 [0, 1] single1 = None \<and>
   snd (setitem stats3 [0, 1] single1) = None \<and>
   ObjV (fst (setitem stats3 [0, 1] single1)) =
     Some (Matrix 1 [[Num 70], [Num 70], [Num 30]]) \<and>
   Phen (fst (setitem stats3 [0, 1] single1)) =
     Some (Matrix 2 [[Num 8, Num 9], [Num 8, Num 9], [Num 5, Num 6]]) \<and>
   sizes (fst (setitem stats3 [0, 1] single1)) = 3"
proof -
  have e: "Encoding stats3 = None"
    by (simp add: stats3_def)
  have m: "int (length [0, 1 :: int]) \<noteq> sizes single1 \<and> (CV stats3 = None) \<noteq> (CV single1 = None)"
    by (simp add: stats3_def single1_def)
  define res where "res = fst (setitem stats3 [0, 1] single1)"
  have s: "setitem stats3 [0, 1] single1 = (res, None)"
    by (simp add: res_def setitem_stats3_single1)
  from setitem_without_encoding [OF e, of "[0, 1]" single1 res] s obtain v p where
    "assign_rows (ObjV stats3) [0, 1] (ObjV single1) = Inr v" "ObjV res = Some v"
    "assign_rows (Phen stats3) [0, 1] (Phen single1) = Inr p" "Phen res = Some p"
    "sizes res = int (shape0 p)"
    and c: "setitem_checks stats3 [0, 1] single1 = None"
    by auto
  moreover have "assign_rows (ObjV stats3) [0, 1] (ObjV single1) =
      Inr (Matrix 1 [[Num 70], [Num 70], [Num 30]])"
    "assign_rows (Phen stats3) [0, 1] (Phen single1) =
      Inr (Matrix 2 [[Num 8, Num 9], [Num 8, Num 9], [Num 5, Num 6]])"
    by code_simp+
  ultimately have "ObjV res = Some (Matrix 1 [[Num 70], [Num 70], [Num 30]])"
    "Phen res = Some (Matrix 2 [[Num 8, Num 9], [Num 8, Num 9], [Num 5, Num 6]])"
    "sizes res = 3"
    by (auto simp: shape0_def)
  with e m c s show ?thesis
    unfolding res_def [symmetric] by simp
qed

end
